theory Spec2Isabelle
  imports Main "HOL-Library.Char_ord" "HOL-Library.Word"
begin

section \<open>URI algebra (package util)\<close>

subsection \<open>Splitting and joining on the slash\<close>

text \<open>
  Go's \<open>strings.Split(s, "/")\<close>: a string with \<open>n\<close> slashes gives \<open>n + 1\<close> cells, so
  the empty string gives one empty cell. \<open>strings.Join(cells, "/")\<close> is its inverse.
  A Go string is a byte sequence; \<open>string\<close> is a list of 8-bit characters.
\<close>

fun split_slash :: "string \<Rightarrow> string list" where
  "split_slash [] = [[]]"
| "split_slash (c # cs) =
     (if c = CHR ''/'' then [] # split_slash cs
      else (case split_slash cs of
              [] \<Rightarrow> [[c]]
            | x # xs \<Rightarrow> (c # x) # xs))"

fun join_slash :: "string list \<Rightarrow> string" where
  "join_slash [] = []"
| "join_slash [x] = x"
| "join_slash (x # y # ys) = x @ CHR ''/'' # join_slash (y # ys)"

subsection \<open>AnalyzeSuffix\<close>

text \<open>
  The five named results of \<open>AnalyzeSuffix\<close>. An early \<open>return\<close> hands back the flags
  as they stand at that moment, with \<open>valid\<close> still false.
\<close>

record suffix_info =
  valid :: bool
  hasStar :: bool
  hasPlus :: bool
  hasDollar :: bool
  hasBang :: bool

definition okchar :: "char \<Rightarrow> bool" where
  "okchar k \<longleftrightarrow>
     (CHR ''0'' \<le> k \<and> k \<le> CHR ''9'') \<or>
     (CHR ''a'' \<le> k \<and> k \<le> CHR ''z'') \<or>
     (CHR ''A'' \<le> k \<and> k \<le> CHR ''Z'') \<or>
     k = CHR ''-'' \<or> k = CHR ''_'' \<or>
     k = CHR '','' \<or> k = CHR ''('' \<or>
     k = CHR '')'' \<or> k = CHR ''.''"

text \<open>The loop over the cells; the inner loop over the bytes of a cell is \<open>list_all\<close>.\<close>

fun analyze_cells :: "string list \<Rightarrow> suffix_info \<Rightarrow> suffix_info" where
  "analyze_cells [] st = st\<lparr>valid := True\<rparr>"
| "analyze_cells (c # cs) st =
     (if length c = 0 then st
      else if length c = 1 then
        (if c = ''*'' then
           (if hasStar st then st else analyze_cells cs (st\<lparr>hasStar := True\<rparr>))
         else if c = ''+'' then analyze_cells cs (st\<lparr>hasPlus := True\<rparr>)
         else if c = ''!'' then st
         else if c = ''$'' then analyze_cells cs (st\<lparr>hasDollar := True\<rparr>)
         else (if \<not> okchar (hd c) then st else analyze_cells cs st))
      else
        (if hd c = CHR ''!'' then
           (if hasBang st then st
            else if list_all okchar (tl c) then analyze_cells cs (st\<lparr>hasBang := True\<rparr>)
            else st\<lparr>hasBang := True\<rparr>)
         else if list_all okchar c then analyze_cells cs st
         else st))"

definition AnalyzeSuffix :: "string \<Rightarrow> suffix_info" where
  "AnalyzeSuffix uri =
     analyze_cells (split_slash uri)
       \<lparr>valid = False, hasStar = False, hasPlus = False, hasDollar = False, hasBang = False\<rparr>"

subsection \<open>RestrictBy\<close>

text \<open>
  The cursors and the two output buffers of \<open>RestrictBy\<close>. The cursors are Go \<open>int\<close>s;
  the back cursors reach \<open>-1\<close>. Every read \<open>fp[i]\<close> of the source stands behind a
  guard that keeps \<open>i\<close> inside the slice, and the guards are kept here in the source's
  order.
\<close>

record rstate =
  fi :: int
  bi :: int
  fni :: int
  bni :: int
  fout :: "string list"
  bout :: "string list"

definition cell :: "string list \<Rightarrow> int \<Rightarrow> string" where
  "cell xs i = xs ! nat i"

text \<open>Phase 1: emit the matching prefix.\<close>

function phase1 :: "string list \<Rightarrow> string list \<Rightarrow> rstate \<Rightarrow> rstate" where
  "phase1 fp bp s =
     (if fi s < int (length fp) \<and> bi s < int (length bp) then
        (if cell fp (fi s) = cell bp (bi s) \<or> (cell bp (bi s) = ''+'' \<and> cell fp (fi s) \<noteq> ''*'') then
           phase1 fp bp (s\<lparr>fout := fout s @ [cell fp (fi s)], fi := fi s + 1, bi := bi s + 1\<rparr>)
         else if cell fp (fi s) = ''+'' \<and> cell bp (bi s) \<noteq> ''*'' then
           phase1 fp bp (s\<lparr>fout := fout s @ [cell bp (bi s)], fi := fi s + 1, bi := bi s + 1\<rparr>)
         else s)
      else s)"
  by pat_completeness auto
termination
  by (relation "measure (\<lambda>(fp, bp, s). nat (int (length fp) - fi s))") auto

text \<open>Phase 2: emit the matching suffix.\<close>

function phase2 :: "string list \<Rightarrow> string list \<Rightarrow> rstate \<Rightarrow> rstate" where
  "phase2 fp bp s =
     (if fni s \<ge> fi s \<and> bni s \<ge> bi s then
        (if cell fp (fni s) = cell bp (bni s) \<or> (cell bp (bni s) = ''+'' \<and> cell fp (fni s) \<noteq> ''*'') then
           phase2 fp bp (s\<lparr>bout := bout s @ [cell fp (fni s)], fni := fni s - 1, bni := bni s - 1\<rparr>)
         else if cell fp (fni s) = ''+'' \<and> cell bp (bni s) \<noteq> ''*'' then
           phase2 fp bp (s\<lparr>bout := bout s @ [cell bp (bni s)], fni := fni s - 1, bni := bni s - 1\<rparr>)
         else s)
      else s)"
  by pat_completeness auto
termination
  by (relation "measure (\<lambda>(fp, bp, s). nat (fni s - fi s + 1))") auto

text \<open>
  Phases 3 and 4 each hold two loops that differ only in the side they walk. The loop
  \<open>for ; i < len(xs) && xs[i] != "*" && i <= ni; i++ { out = append(out, xs[i]) }\<close> and
  its mirror \<open>for ; ni >= 0 && xs[ni] != "*" && ni >= i; ni-- { out = append(out, xs[ni]) }\<close>
  are written once, for the slice and the cursors they are given.
\<close>

function emit_front :: "string list \<Rightarrow> int \<Rightarrow> int \<Rightarrow> string list \<Rightarrow> int \<times> string list" where
  "emit_front xs i ni out =
     (if i < int (length xs) \<and> cell xs i \<noteq> ''*'' \<and> i \<le> ni then
        emit_front xs (i + 1) ni (out @ [cell xs i])
      else (i, out))"
  by pat_completeness auto
termination
  by (relation "measure (\<lambda>(xs, i, ni, out). nat (int (length xs) - i))") auto

function emit_back :: "string list \<Rightarrow> int \<Rightarrow> int \<Rightarrow> string list \<Rightarrow> int \<times> string list" where
  "emit_back xs i ni out =
     (if ni \<ge> 0 \<and> cell xs ni \<noteq> ''*'' \<and> ni \<ge> i then
        emit_back xs i (ni - 1) (out @ [cell xs ni])
      else (ni, out))"
  by pat_completeness auto
termination
  by (relation "measure (\<lambda>(xs, i, ni, out). nat (ni + 1))") auto

definition phase3 :: "string list \<Rightarrow> string list \<Rightarrow> rstate \<Rightarrow> rstate" where
  "phase3 fp bp s =
     (if fi s < int (length fp) \<and> cell fp (fi s) = ''*'' then
        (case emit_front bp (bi s) (bni s) (fout s) of (i, out) \<Rightarrow> s\<lparr>bi := i, fout := out\<rparr>)
      else if bi s < int (length bp) \<and> cell bp (bi s) = ''*'' then
        (case emit_front fp (fi s) (fni s) (fout s) of (i, out) \<Rightarrow> s\<lparr>fi := i, fout := out\<rparr>)
      else s)"

definition phase4 :: "string list \<Rightarrow> string list \<Rightarrow> rstate \<Rightarrow> rstate" where
  "phase4 fp bp s =
     (if fni s \<ge> 0 \<and> cell fp (fni s) = ''*'' then
        (case emit_back bp (bi s) (bni s) (bout s) of (ni, out) \<Rightarrow> s\<lparr>bni := ni, bout := out\<rparr>)
      else if bni s \<ge> 0 \<and> cell bp (bni s) = ''*'' then
        (case emit_back fp (fi s) (fni s) (bout s) of (ni, out) \<Rightarrow> s\<lparr>fni := ni, bout := out\<rparr>)
      else s)"

text \<open>The closure \<open>emit\<close>: the back buffer is appended in reverse, then the cells are joined.\<close>

definition emit :: "string list \<Rightarrow> string list \<Rightarrow> string \<times> bool" where
  "emit fo bo = (join_slash (fo @ rev bo), True)"

text \<open>Phase 5 and the final test.\<close>

definition phase5 :: "string list \<Rightarrow> string list \<Rightarrow> rstate \<Rightarrow> string \<times> bool" where
  "phase5 fp bp s =
     (if fi s = fni s \<and> cell fp (fi s) = ''*'' \<and> bi s = bni s \<and> cell bp (bi s) = ''*'' then
        emit (fout s @ [''*'']) (bout s)
      else
        (let fi' = (if fi s < int (length fp) \<and> cell fp (fi s) = ''*'' then fi s + 1 else fi s);
             bi' = (if bi s < int (length bp) \<and> cell bp (bi s) = ''*'' then bi s + 1 else bi s)
         in if (fi' = fni s + 1 \<or> fi' = int (length fp)) \<and> (bi' = bni s + 1 \<or> bi' = int (length bp))
            then emit (fout s) (bout s)
            else ([], False)))"

definition RestrictBy :: "string \<Rightarrow> string \<Rightarrow> string \<times> bool" where
  "RestrictBy from by =
     (let fp = split_slash from;
          bp = split_slash by;
          s0 = \<lparr>fi = 0, bi = 0, fni = int (length fp) - 1, bni = int (length bp) - 1,
                fout = [], bout = []\<rparr>
      in phase5 fp bp (phase4 fp bp (phase3 fp bp (phase2 fp bp (phase1 fp bp s0)))))"

text \<open>Exchanging the roles of the two sides: the state a call with swapped arguments is in.\<close>

definition swap :: "rstate \<Rightarrow> rstate" where
  "swap s = \<lparr>fi = bi s, bi = fi s, fni = bni s, bni = fni s, fout = fout s, bout = bout s\<rparr>"

subsection \<open>What the specification says of a suffix\<close>









section \<open>Access chain analysis (package core)\<close>

type_synonym byte = "8 word"
type_synonym vk = "byte list"

text \<open>The message type codes.\<close>

definition TypePublish :: int where "TypePublish = 1"
definition TypePersist :: int where "TypePersist = 2"
definition TypeSubscribe :: int where "TypeSubscribe = 3"
definition TypeTap :: int where "TypeTap = 4"
definition TypeQuery :: int where "TypeQuery = 5"
definition TypeTapQuery :: int where "TypeTapQuery = 6"
definition TypeLS :: int where "TypeLS = 7"
definition TypeUnsubscribe :: int where "TypeUnsubscribe = 8"

text \<open>The error kinds that chain analysis raises.\<close>

datatype bwe = BadURI | ChainOriginNotMVK | TTLExpired | BadLink | OverconstrainedURI
  | BadPermissions | BadOperation

text \<open>\<open>objects.AccessDOTPermissionSet\<close>, with the fields that chain analysis reads.\<close>

record ADPS =
  CanPublish :: bool
  CanConsume :: bool
  CanConsumePlus :: bool
  CanConsumeStar :: bool
  CanTap :: bool
  CanTapPlus :: bool
  CanTapStar :: bool
  CanList :: bool

text \<open>
  Modelled from the spec: \<open>ReduceBy\<close> of \<open>objects.AccessDOTPermissionSet\<close> is not among the
  sources. The specification has it as the bitwise AND of the permission flags, with the
  invariant \<open>C* \<Rightarrow> C+ \<Rightarrow> C\<close> and \<open>T* \<Rightarrow> T+ \<Rightarrow> T\<close> re-established; the invariant is
  re-established the way \<open>SetCanConsume\<close> and \<open>SetCanTap\<close> of the sources establish it.
\<close>

definition ReduceBy :: "ADPS \<Rightarrow> ADPS \<Rightarrow> ADPS" where
  "ReduceBy lhs rhs =
     (let cstar = CanConsumeStar lhs \<and> CanConsumeStar rhs;
          cplus = (CanConsumePlus lhs \<and> CanConsumePlus rhs) \<or> cstar;
          c = (CanConsume lhs \<and> CanConsume rhs) \<or> cplus;
          tstar = CanTapStar lhs \<and> CanTapStar rhs;
          tplus = (CanTapPlus lhs \<and> CanTapPlus rhs) \<or> tstar;
          t = (CanTap lhs \<and> CanTap rhs) \<or> tplus
      in \<lparr>CanPublish = CanPublish lhs \<and> CanPublish rhs,
          CanConsume = c, CanConsumePlus = cplus, CanConsumeStar = cstar,
          CanTap = t, CanTapPlus = tplus, CanTapStar = tstar,
          CanList = CanList lhs \<and> CanList rhs\<rparr>)"

text \<open>
  An access DOT, with the fields that chain analysis and the chain builder read:
  \<open>GetGiverVK\<close>, \<open>GetReceiverVK\<close>, \<open>GetTTL\<close>, \<open>GetAccessURIMVK\<close>,
  \<open>GetAccessURISuffix\<close>, \<open>GetPermissionSet\<close> and \<open>GetHash\<close>.
\<close>

record DOT =
  giverVK :: vk
  receiverVK :: vk
  ttl :: int
  mVK :: vk
  uriSuffix :: string
  permissionSet :: ADPS
  hash :: "byte list"

text \<open>The variables that the link loop of \<open>AnalyzeAccessDOTChain\<close> updates.\<close>

record lstate =
  l_ttl :: int
  l_ps :: ADPS
  l_tail :: vk
  l_uri :: string

text \<open>
  One pass of the loop body for the DOT \<open>d\<close>. An error leaves the loop with the
  variables as they stand at the \<open>return\<close>.
\<close>

definition link_step :: "vk \<Rightarrow> DOT \<Rightarrow> lstate \<Rightarrow> (bwe \<times> lstate) + lstate" where
  "link_step mvk d st =
     (if l_ttl st = 0 then Inl (TTLExpired, st)
      else
        (let st1 = st\<lparr>l_ttl := l_ttl st - 1\<rparr>;
             st2 = st1\<lparr>l_ps := ReduceBy (l_ps st1) (permissionSet d)\<rparr>;
             st3 = (if ttl d < l_ttl st2 then st2\<lparr>l_ttl := ttl d\<rparr> else st2)
         in if l_tail st3 \<noteq> giverVK d \<or> mvk \<noteq> mVK d then Inl (BadLink, st3)
            else
              (case RestrictBy (l_uri st3) (uriSuffix d) of
                 (uri, okay) \<Rightarrow>
                   if \<not> okay then Inl (OverconstrainedURI, st3\<lparr>l_uri := uri\<rparr>)
                   else Inr (st3\<lparr>l_uri := uri, l_tail := receiverVK d\<rparr>))))"

fun chain_loop :: "vk \<Rightarrow> DOT list \<Rightarrow> lstate \<Rightarrow> (bwe \<times> lstate) + lstate" where
  "chain_loop mvk [] st = Inr st"
| "chain_loop mvk (d # ds) st =
     (case link_step mvk d st of
        Inl e \<Rightarrow> Inl e
      | Inr st' \<Rightarrow> chain_loop mvk ds st')"

text \<open>The permission check on the message type, the \<open>switch\<close> that ends the analysis.\<close>

definition op_gate :: "int \<Rightarrow> ADPS \<Rightarrow> bool \<Rightarrow> bool \<Rightarrow> bwe option" where
  "op_gate mtype p isstar isplus =
     (if mtype = TypePublish \<or> mtype = TypePersist then
        (if \<not> CanPublish p then Some BadPermissions else None)
      else if mtype = TypeQuery \<or> mtype = TypeSubscribe then
        (if \<not> CanConsume p \<or> (isplus \<and> \<not> CanConsumePlus p) \<or> (isstar \<and> \<not> CanConsumeStar p)
         then Some BadPermissions else None)
      else if mtype = TypeTapQuery \<or> mtype = TypeTap then
        (if \<not> CanTap p \<or> (isplus \<and> \<not> CanTapPlus p) \<or> (isstar \<and> \<not> CanTapStar p)
         then Some BadPermissions else None)
      else if mtype = TypeLS then
        (if \<not> CanList p then Some BadPermissions else None)
      else Some BadOperation)"

text \<open>
  The named results of \<open>AnalyzeAccessDOTChain\<close>; a nil slice or pointer is \<open>None\<close>;
  the results \<open>star\<close> and \<open>plus\<close> are the fields \<open>has_star\<close> and \<open>has_plus\<close>.
  Every \<open>return\<close> hands back the results as assigned so far.
\<close>

record analysis =
  err :: "bwe option"
  mvk :: "vk option"
  mergeduri :: "string option"
  has_star :: bool
  has_plus :: bool
  ps :: "ADPS option"
  originVK :: "vk option"

text \<open>
  The chain is the list of its resolved DOTs. On a chain without DOTs the source
  dereferences a nil DOT and panics: the result is \<open>None\<close>.
\<close>

definition AnalyzeAccessDOTChain :: "int \<Rightarrow> string \<Rightarrow> DOT list \<Rightarrow> analysis option" where
  "AnalyzeAccessDOTChain mtype targetURI dc =
     (case dc of
        [] \<Rightarrow> None
      | firstdot # rest \<Rightarrow>
          (let r0 = \<lparr>err = None, mvk = None, mergeduri = None, has_star = False, has_plus = False,
                      ps = None, originVK = None\<rparr>
           in case RestrictBy targetURI (uriSuffix firstdot) of
                (uri, uriok) \<Rightarrow>
                  if \<not> uriok then Some (r0\<lparr>err := Some BadURI\<rparr>)
                  else
                    (let r1 = r0\<lparr>mvk := Some (mVK firstdot), ps := Some (permissionSet firstdot)\<rparr>
                     in if giverVK firstdot \<noteq> mVK firstdot
                        then Some (r1\<lparr>err := Some ChainOriginNotMVK\<rparr>)
                        else
                          (case chain_loop (mVK firstdot) rest
                                  \<lparr>l_ttl = ttl firstdot, l_ps = permissionSet firstdot,
                                   l_tail = receiverVK firstdot, l_uri = uri\<rparr> of
                             Inl (e, st) \<Rightarrow> Some (r1\<lparr>err := Some e, ps := Some (l_ps st)\<rparr>)
                           | Inr st \<Rightarrow>
                               (let a = AnalyzeSuffix (l_uri st);
                                    r2 = r1\<lparr>ps := Some (l_ps st), originVK := Some (l_tail st),
                                             mergeduri := Some (l_uri st),
                                             has_star := hasStar a, has_plus := hasPlus a\<rparr>
                                in if \<not> valid a then Some (r2\<lparr>err := Some OverconstrainedURI\<rparr>)
                                   else Some (r2\<lparr>err := op_gate mtype (l_ps st) (hasStar a) (hasPlus a)\<rparr>))))))"

text \<open>
  The links and URIs of a chain, taken apart from its TTLs: every DOT is given by the
  receiver of the one before it, lies in the namespace of the chain, and restricts the
  running URI without failing.
\<close>

fun links_valid :: "vk \<Rightarrow> vk \<Rightarrow> string \<Rightarrow> DOT list \<Rightarrow> bool" where
  "links_valid m tail uri [] = True"
| "links_valid m tail uri (d # ds) =
     (tail = giverVK d \<and> m = mVK d \<and> snd (RestrictBy uri (uriSuffix d)) \<and>
      links_valid m (receiverVK d) (fst (RestrictBy uri (uriSuffix d))) ds)"

definition chain_valid :: "string \<Rightarrow> DOT list \<Rightarrow> bool" where
  "chain_valid targetURI dc =
     (case dc of
        [] \<Rightarrow> False
      | d # ds \<Rightarrow>
          snd (RestrictBy targetURI (uriSuffix d)) \<and> giverVK d = mVK d \<and>
          links_valid (mVK d) (receiverVK d) (fst (RestrictBy targetURI (uriSuffix d))) ds)"

text \<open>The permission sets written \<open>C*T\<close> and \<open>C\<close>.\<close>

definition noPermissions :: ADPS where
  "noPermissions = \<lparr>CanPublish = False, CanConsume = False, CanConsumePlus = False,
     CanConsumeStar = False, CanTap = False, CanTapPlus = False, CanTapStar = False,
     CanList = False\<rparr>"

definition perm_CstarT :: ADPS where
  "perm_CstarT = noPermissions\<lparr>CanConsume := True, CanConsumePlus := True,
     CanConsumeStar := True, CanTap := True\<rparr>"

definition perm_C :: ADPS where
  "perm_C = noPermissions\<lparr>CanConsume := True\<rparr>"


text \<open>The loop variables as the first DOT leaves them, once the target URI has restricted by its suffix.\<close>

definition st_first :: "string \<Rightarrow> DOT \<Rightarrow> lstate" where
  "st_first U d0 = \<lparr>l_ttl = ttl d0, l_ps = permissionSet d0, l_tail = receiverVK d0,
     l_uri = fst (RestrictBy U (uriSuffix d0))\<rparr>"

text \<open>Six keys, a constructor of access DOTs, and two chains of DOTs of TTL 3 with valid links.\<close>

definition vkM :: vk where "vkM = replicate 32 1"
definition vkA :: vk where "vkA = replicate 32 2"
definition vkB :: vk where "vkB = replicate 32 3"
definition vkC :: vk where "vkC = replicate 32 4"
definition vkD :: vk where "vkD = replicate 32 5"
definition vkE :: vk where "vkE = replicate 32 6"

definition grant :: "vk \<Rightarrow> vk \<Rightarrow> int \<Rightarrow> vk \<Rightarrow> string \<Rightarrow> ADPS \<Rightarrow> DOT" where
  "grant g r t m s p = \<lparr>giverVK = g, receiverVK = r, ttl = t, mVK = m, uriSuffix = s,
     permissionSet = p, hash = []\<rparr>"

definition ttl3_chain4 :: "DOT list" where
  "ttl3_chain4 = [grant vkM vkA 3 vkM ''a/*'' perm_CstarT, grant vkA vkB 3 vkM ''a/*'' perm_CstarT,
     grant vkB vkC 3 vkM ''a/*'' perm_CstarT, grant vkC vkD 3 vkM ''a/*'' perm_CstarT]"

definition ttl3_chain5 :: "DOT list" where
  "ttl3_chain5 = ttl3_chain4 @ [grant vkD vkE 3 vkM ''a/*'' perm_CstarT]"

section \<open>Terminus: the subscription tree and publish (package core)\<close>

type_synonym clientid = nat

text \<open>\<open>UniqueMessageID\<close>: the message id and the first eight bytes of the signature.\<close>

record UniqueMessageID =
  Mid :: nat
  Sig :: nat

text \<open>
  A subscription, with the client id of its client; the handler it carries is run by
  \<open>Publish\<close> for every subscription it delivers to.
\<close>

record subscription =
  subid :: UniqueMessageID
  client :: clientid
  tap :: bool

text \<open>
  A node of the tree: the map from a cell to the child, and the map from a client id to
  the subscription of that client. Both maps are lists of pairs, looked up with
  \<open>map_of\<close>; Go ranges over a map in no fixed order, and the order of the list stands
  for the order one run takes.
\<close>

datatype snode = Snode (children: "(string \<times> snode) list") (subs: "(clientid \<times> subscription) list")

definition NewSnode :: snode where
  "NewSnode = Snode [] []"

text \<open>
  \<open>rmatchSubs\<close>: the result is the list of the subscriptions handed to the visitor, in
  the order of the calls. Each call goes one node down the tree.
\<close>

function rmatchSubs :: "snode \<Rightarrow> string list \<Rightarrow> subscription list" where
  "rmatchSubs s [] = map snd (subs s)"
| "rmatchSubs s (p # parts) =
     (case map_of (children s) p of
        Some v1 \<Rightarrow> rmatchSubs v1 parts
      | None \<Rightarrow> []) @
     (case map_of (children s) ''+'' of
        Some v2 \<Rightarrow> rmatchSubs v2 parts
      | None \<Rightarrow> []) @
     (case map_of (children s) ''*'' of
        Some v3 \<Rightarrow> concat (map (\<lambda>i. rmatchSubs v3 (drop i (p # parts))) [0 ..< length (p # parts)])
      | None \<Rightarrow> [])"
  by pat_completeness auto
termination
proof (relation "measure (\<lambda>(s, parts). size s)")
  have smaller: "size v < size s" if "map_of (children s) k = Some v" for s :: snode and k v
  proof -
    have "\<And>cs. map_of cs k = Some v \<Longrightarrow> size v < Suc (size_list (size_prod (\<lambda>x. 0) size) cs)"
    proof -
      fix cs :: "(string \<times> snode) list"
      show "map_of cs k = Some v \<Longrightarrow> size v < Suc (size_list (size_prod (\<lambda>x. 0) size) cs)"
        by (induction cs) (auto split: if_splits)
    qed
    from this [OF that] show ?thesis by (cases s) simp
  qed
  show "wf (measure (\<lambda>(s, parts). size s))" by simp
  show "\<And>s p parts v1. map_of (children s) p = Some v1 \<Longrightarrow>
      ((v1, parts), s, p # parts) \<in> measure (\<lambda>(s, parts). size s)"
    using smaller by simp
  show "\<And>s p parts v2. map_of (children s) ''+'' = Some v2 \<Longrightarrow>
      ((v2, parts), s, p # parts) \<in> measure (\<lambda>(s, parts). size s)"
    using smaller by simp
  show "\<And>s p parts v3 i. map_of (children s) ''*'' = Some v3 \<Longrightarrow> i \<in> set [0 ..< length (p # parts)] \<Longrightarrow>
      ((v3, drop i (p # parts)), s, p # parts) \<in> measure (\<lambda>(s, parts). size s)"
    using smaller by simp
qed

text \<open>
  \<open>addSub\<close> changes the tree in place and returns the id of the subscription that the
  tree holds for the client under the pattern; here it returns the changed tree with it.
\<close>

fun addSub :: "snode \<Rightarrow> string list \<Rightarrow> subscription \<Rightarrow> snode \<times> UniqueMessageID" where
  "addSub s [] sub =
     (case map_of (subs s) (client sub) of
        Some existing \<Rightarrow> (s, subid existing)
      | None \<Rightarrow> (Snode (children s) (subs s @ [(client sub, sub)]), subid sub))"
| "addSub s (p # parts) sub =
     (case map_of (children s) p of
        None \<Rightarrow>
          (case addSub NewSnode parts sub of
             (nc, sid) \<Rightarrow> (Snode (children s @ [(p, nc)]) (subs s), sid))
      | Some child \<Rightarrow>
          (case addSub child parts sub of
             (child', sid) \<Rightarrow>
               (Snode (map (\<lambda>(k, v). if k = p then (k, child') else (k, v)) (children s)) (subs s), sid)))"

definition AddSub :: "snode \<Rightarrow> string \<Rightarrow> subscription \<Rightarrow> snode" where
  "AddSub stree topic s = fst (addSub stree (split_slash topic) s)"

definition RMatchSubs :: "snode \<Rightarrow> string \<Rightarrow> subscription list" where
  "RMatchSubs stree topic = rmatchSubs stree (split_slash topic)"

text \<open>
  The shuffle of \<open>Publish\<close>: \<open>for i := range clientlist { j := rand.Intn(i + 1); swap i j }\<close>.
  The random source is the function \<open>rnd\<close>: the draw at index \<open>i\<close> is \<open>rnd i mod (i + 1)\<close>.
\<close>

fun shuffle_from :: "(nat \<Rightarrow> nat) \<Rightarrow> nat \<Rightarrow> nat \<Rightarrow> 'a list \<Rightarrow> 'a list" where
  "shuffle_from rnd i 0 xs = xs"
| "shuffle_from rnd i (Suc n) xs =
     (let j = rnd i mod (i + 1)
      in shuffle_from rnd (i + 1) n (xs[i := xs ! j, j := xs ! i]))"

definition shuffle :: "(nat \<Rightarrow> nat) \<Rightarrow> 'a list \<Rightarrow> 'a list" where
  "shuffle rnd xs = shuffle_from rnd 0 (length xs) xs"

text \<open>
  The delivery loop of \<open>Publish\<close> in terminus.go: the result lists the subscriptions
  whose handler is started. \<open>count\<close> goes up with every delivery, to a tap as well.
\<close>

fun deliver :: "int \<Rightarrow> int \<Rightarrow> subscription list \<Rightarrow> subscription list" where
  "deliver consumers count [] = []"
| "deliver consumers count (sub # rest) =
     (if \<not> tap sub \<and> consumers \<noteq> 0 \<and> count \<ge> consumers then deliver consumers count rest
      else sub # deliver consumers (count + 1) rest)"

text \<open>The same loop in the earlier copy of the terminus, which tests \<open>count == m.Consumers\<close>.\<close>

fun deliver_queue :: "int \<Rightarrow> int \<Rightarrow> subscription list \<Rightarrow> subscription list" where
  "deliver_queue consumers count [] = []"
| "deliver_queue consumers count (sub # rest) =
     (if \<not> tap sub \<and> consumers \<noteq> 0 \<and> count = consumers then deliver_queue consumers count rest
      else sub # deliver_queue consumers (count + 1) rest)"

definition Publish :: "(nat \<Rightarrow> nat) \<Rightarrow> snode \<Rightarrow> string \<Rightarrow> int \<Rightarrow> subscription list" where
  "Publish rnd stree topic consumers =
     (let clientlist = RMatchSubs stree topic;
          clientlist' = (if consumers \<noteq> 0 then shuffle rnd clientlist else clientlist)
      in deliver consumers 0 clientlist')"

definition Publish_queue :: "(nat \<Rightarrow> nat) \<Rightarrow> snode \<Rightarrow> string \<Rightarrow> int \<Rightarrow> subscription list" where
  "Publish_queue rnd stree topic consumers =
     (let clientlist = RMatchSubs stree topic;
          clientlist' = (if consumers \<noteq> 0 then shuffle rnd clientlist else clientlist)
      in deliver_queue consumers 0 clientlist')"

text \<open>A subscription of the client \<open>c\<close>, and the trees of the two scenarios.\<close>

definition sub_of :: "clientid \<Rightarrow> bool \<Rightarrow> subscription" where
  "sub_of c t = \<lparr>subid = \<lparr>Mid = c, Sig = 0\<rparr>, client = c, tap = t\<rparr>"

definition wildcard_tree :: snode where
  "wildcard_tree =
     AddSub (AddSub (AddSub (AddSub (AddSub (AddSub (AddSub NewSnode
       ''a/+/c'' (sub_of 1 False)) ''a/b/+'' (sub_of 2 False)) ''*/c'' (sub_of 3 False))
       ''a/*'' (sub_of 4 False)) ''*'' (sub_of 5 False)) ''a/b'' (sub_of 6 False))
       ''a/b/c/d'' (sub_of 7 False)"

definition fanout_tree :: snode where
  "fanout_tree =
     AddSub (AddSub (AddSub (AddSub NewSnode
       ''t'' (sub_of 1 True)) ''t'' (sub_of 2 False)) ''t'' (sub_of 3 False)) ''t'' (sub_of 4 False)"

text \<open>The random source whose draw at index \<open>i\<close> is \<open>i\<close> itself: the shuffle leaves the list as it is.\<close>

definition draw_same :: "nat \<Rightarrow> nat" where
  "draw_same i = i"

section \<open>The resolution cache (package api)\<close>

definition StateUnknown :: int where "StateUnknown = 0"
definition StateValid :: int where "StateValid = 1"
definition StateExpired :: int where "StateExpired = 2"
definition StateRevoked :: int where "StateRevoked = 3"
definition StateError :: int where "StateError = 4"

text \<open>
  The maps of \<open>ResolutionData\<close> that the DOT cache uses. A key is the byte sequence that
  \<open>bc.SliceToBytes32\<close> is given. Reading a key that a Go map does not hold gives the nil
  slice, which \<open>entries\<close> makes the empty list. Of a cached entity only the state is kept.
\<close>

record ResolutionData =
  entityCache :: "vk \<rightharpoonup> int"
  dotHashCache :: "byte list \<rightharpoonup> DOT \<times> int"
  dotFromInvCache :: "vk \<rightharpoonup> byte list list"
  dotToInvCache :: "vk \<rightharpoonup> byte list list"

definition newResolutionData :: ResolutionData where
  "newResolutionData = \<lparr>entityCache = Map.empty, dotHashCache = Map.empty,
     dotFromInvCache = Map.empty, dotToInvCache = Map.empty\<rparr>"

definition entries :: "('k \<rightharpoonup> 'v list) \<Rightarrow> 'k \<Rightarrow> 'v list" where
  "entries m k = (case m k of None \<Rightarrow> [] | Some l \<Rightarrow> l)"

definition flushDOT :: "byte list \<Rightarrow> ResolutionData \<Rightarrow> ResolutionData" where
  "flushDOT h rd = rd\<lparr>dotHashCache := (dotHashCache rd)(h := None)\<rparr>"

definition FlushEntity :: "vk \<Rightarrow> ResolutionData \<Rightarrow> ResolutionData" where
  "FlushEntity kvk rd =
     (let rd1 = rd\<lparr>entityCache := (entityCache rd)(kvk := None)\<rparr>;
          dTo = entries (dotToInvCache rd1) kvk;
          rd2 = fold flushDOT dTo rd1;
          rd3 = rd2\<lparr>dotToInvCache := (dotToInvCache rd2)(kvk := None)\<rparr>;
          dFrom = entries (dotFromInvCache rd3) kvk;
          rd4 = fold flushDOT dFrom rd3
      in rd4\<lparr>dotFromInvCache := (dotFromInvCache rd4)(kvk := None)\<rparr>)"

definition resolveDOTFromCache :: "byte list \<Rightarrow> ResolutionData \<Rightarrow> bool \<times> DOT option \<times> int" where
  "resolveDOTFromCache khash rd =
     (case dotHashCache rd khash of
        Some (ro, s) \<Rightarrow> (True, Some ro, s)
      | None \<Rightarrow> (False, None, StateUnknown))"

definition cacheDOT :: "DOT \<Rightarrow> int \<Rightarrow> ResolutionData \<Rightarrow> ResolutionData" where
  "cacheDOT ro s rd =
     (let khash = hash ro;
          rd1 = rd\<lparr>dotHashCache := (dotHashCache rd)(khash \<mapsto> (ro, s))\<rparr>;
          kFromVK = giverVK ro;
          kToVK = receiverVK ro;
          existing = (khash \<in> set (entries (dotFromInvCache rd1) kFromVK))
      in if \<not> existing
         then rd1\<lparr>dotFromInvCache := (dotFromInvCache rd1)(kFromVK \<mapsto> entries (dotFromInvCache rd1) kFromVK @ [khash]),
                  dotToInvCache := (dotToInvCache rd1)(kToVK \<mapsto> entries (dotToInvCache rd1) kToVK @ [khash])\<rparr>
         else rd1)"

text \<open>A DOT that \<open>A\<close> grants to \<open>B\<close>, with a hash of its own.\<close>

definition dotAB :: DOT where
  "dotAB = (grant vkA vkB 3 vkM ''a/*'' perm_C)\<lparr>hash := replicate 32 7\<rparr>"

section \<open>Wire objects (package objects)\<close>

unbundle bit_operations_syntax

text \<open>
  Reads of a byte slice. A read outside the slice panics: the result is \<open>None\<close>. The
  slice has no spare capacity, as the buffer that \<open>LoadBosswaveObject\<close> allocates, so
  \<open>content[lo:hi]\<close> panics unless \<open>lo \<le> hi \<le> len(content)\<close>.
\<close>

definition at :: "byte list \<Rightarrow> nat \<Rightarrow> byte option" where
  "at content i = (if i < length content then Some (content ! i) else None)"

definition slice :: "byte list \<Rightarrow> nat \<Rightarrow> nat \<Rightarrow> byte list option" where
  "slice content lo hi =
     (if lo \<le> hi \<and> hi \<le> length content then Some (take (hi - lo) (drop lo content)) else None)"

text \<open>The little-endian value of a byte sequence, and the reads \<open>binary.LittleEndian.UintN(content[idx:])\<close>.\<close>

fun le_uint :: "byte list \<Rightarrow> nat" where
  "le_uint [] = 0"
| "le_uint (b # bs) = unat b + 256 * le_uint bs"

definition Uint16 :: "byte list \<Rightarrow> nat \<Rightarrow> nat option" where
  "Uint16 content idx = map_option le_uint (slice content idx (idx + 2))"

definition Uint32 :: "byte list \<Rightarrow> nat \<Rightarrow> nat option" where
  "Uint32 content idx = map_option le_uint (slice content idx (idx + 4))"

definition Uint64 :: "byte list \<Rightarrow> nat \<Rightarrow> nat option" where
  "Uint64 content idx = map_option le_uint (slice content idx (idx + 8))"

definition string_of :: "byte list \<Rightarrow> string" where
  "string_of bs = map (\<lambda>b. char_of (unat b)) bs"

definition ROAccessDChainHash :: int where "ROAccessDChainHash = 0x01"
definition ROPermissionDChainHash :: int where "ROPermissionDChainHash = 0x11"
definition ROAccessDChain :: int where "ROAccessDChain = 0x02"
definition ROPermissionDChain :: int where "ROPermissionDChain = 0x12"
definition ROAccessDOT :: int where "ROAccessDOT = 0x20"
definition ROPermissionDOT :: int where "ROPermissionDOT = 0x21"

record ObjectError =
  ObjectID :: int
  Message :: string

definition NewObjectError :: "int \<Rightarrow> string \<Rightarrow> ObjectError" where
  "NewObjectError oid msg = \<lparr>ObjectID = oid, Message = msg\<rparr>"

text \<open>
  A function with \<open>defer func() { if r := recover(); r != nil { err = ...; rv = nil } }()\<close>:
  a panic of the body becomes the error of the handler.
\<close>

definition recover :: "ObjectError \<Rightarrow> (ObjectError + 'a) option \<Rightarrow> (ObjectError + 'a) option" where
  "recover e body = (case body of None \<Rightarrow> Some (Inl e) | Some r \<Rightarrow> Some r)"

subsection \<open>DChain\<close>

text \<open>
  A DChain. The slots of \<open>dots\<close> hold the resolved DOTs; \<open>make([]DOT, n)\<close> leaves them
  unfilled, which is \<open>None\<close>.
\<close>

record DChain =
  dothashes :: "byte list"
  chainhash :: "byte list"
  dots :: "DOT option list"
  isAccess :: bool
  ronum :: int
  elaborated :: bool

definition NewDChain_body :: "(byte list \<Rightarrow> byte list) \<Rightarrow> int \<Rightarrow> byte list \<Rightarrow> (ObjectError + DChain) option" where
  "NewDChain_body sha n content =
     (if n = ROAccessDChain \<or> n = ROPermissionDChain then
        (if length content mod 32 \<noteq> 0 \<or> length content = 0
         then Some (Inl (NewObjectError n ''Wrong content length''))
         else Some (Inr \<lparr>dothashes = content, chainhash = sha content,
                dots = replicate (length content div 32) None,
                isAccess = (n = 0x02), ronum = n, elaborated = True\<rparr>))
      else if n = ROAccessDChainHash \<or> n = ROPermissionDChainHash then
        (if length content \<noteq> 32
         then Some (Inl (NewObjectError n ''Wrong content length''))
         else Some (Inr \<lparr>dothashes = [], chainhash = content, dots = [],
                isAccess = (n = 0x01), ronum = n, elaborated = False\<rparr>))
      else None)"

definition NewDChain :: "(byte list \<Rightarrow> byte list) \<Rightarrow> int \<Rightarrow> byte list \<Rightarrow> (ObjectError + DChain) option" where
  "NewDChain sha n content = recover (NewObjectError n ''Bad DChain'') (NewDChain_body sha n content)"

subsection \<open>DOT\<close>

record PublishLimits =
  TxLimit :: "64 word"
  StoreLimit :: "64 word"
  Retain :: nat

text \<open>
  The DOT that \<open>NewDOT\<close> builds: the DOT of chain analysis, whose permission set holds
  the eight flags \<open>canPublish\<close> to \<open>canList\<close>, with the remaining fields of the struct.
  The times are nanoseconds, as 64-bit words.
\<close>

record DOTObject = DOT +
  content :: "byte list"
  expires :: "64 word option"
  created :: "64 word option"
  revokers :: "byte list list"
  contact :: string
  comment :: string
  signature :: "byte list"
  isAccessDOT :: bool
  pubLim :: "PublishLimits option"
  kv :: "string \<rightharpoonup> string"

text \<open>
  The loop over the header entries of a DOT, from the index \<open>idx\<close>; it ends at the entry
  \<open>0x00\<close> and returns the index behind it.
\<close>

function tlv_loop :: "int \<Rightarrow> byte list \<Rightarrow> DOTObject \<Rightarrow> nat \<Rightarrow> (ObjectError + DOTObject \<times> nat) option" where
  "tlv_loop n cont ro idx =
     (case at cont idx of
        None \<Rightarrow> None
      | Some t \<Rightarrow>
          if t = 0x00 then Some (Inr (ro, idx + 1))
          else
            (case at cont (idx + 1) of
               None \<Rightarrow> None
             | Some l \<Rightarrow>
                 if t = 0x01 then
                   (if l \<noteq> 17 then Some (Inl (NewObjectError n ''Invalid publim in DoT''))
                    else
                      (case Uint64 cont (idx + 2) of
                         None \<Rightarrow> None
                       | Some tx \<Rightarrow>
                           (case Uint64 cont (idx + 2 + 8) of
                              None \<Rightarrow> None
                            | Some sl \<Rightarrow>
                                (case at cont (idx + 2 + 16) of
                                   None \<Rightarrow> None
                                 | Some rt \<Rightarrow>
                                     tlv_loop n cont
                                       (ro\<lparr>pubLim := Some \<lparr>TxLimit = word_of_nat tx,
                                              StoreLimit = word_of_nat sl, Retain = unat rt\<rparr>\<rparr>)
                                       (idx + 2 + 17)))))
                 else if t = 0x02 then
                   (if l \<noteq> 8 then Some (Inl (NewObjectError n ''Invalid creation date in DoT''))
                    else
                      (case Uint64 cont (idx + 2) of
                         None \<Rightarrow> None
                       | Some ms \<Rightarrow>
                           tlv_loop n cont (ro\<lparr>created := Some (word_of_nat (ms * 1000000))\<rparr>)
                             (idx + 2 + 8)))
                 else if t = 0x03 then
                   (if l \<noteq> 8 then Some (Inl (NewObjectError n ''Invalid expiry date in DoT''))
                    else
                      (case Uint64 cont (idx + 2) of
                         None \<Rightarrow> None
                       | Some ms \<Rightarrow>
                           tlv_loop n cont (ro\<lparr>expires := Some (word_of_nat (ms * 1000000))\<rparr>)
                             (idx + 2 + 8)))
                 else if t = 0x04 then
                   (if l \<noteq> 8 then Some (Inl (NewObjectError n ''Invalid delegated revoker in DoT''))
                    else
                      (case slice cont (idx + 2) (idx + 2 + 32) of
                         None \<Rightarrow> None
                       | Some r \<Rightarrow>
                           tlv_loop n cont (ro\<lparr>revokers := revokers ro @ [r]\<rparr>) (idx + 2 + 32)))
                 else if t = 0x05 then
                   (case slice cont (idx + 2) (idx + 2 + unat l) of
                      None \<Rightarrow> None
                    | Some c \<Rightarrow>
                        tlv_loop n cont (ro\<lparr>contact := string_of c\<rparr>) (idx + (2 + unat l)))
                 else if t = 0x06 then
                   (case slice cont (idx + 2) (idx + 2 + unat l) of
                      None \<Rightarrow> None
                    | Some c \<Rightarrow>
                        tlv_loop n cont (ro\<lparr>comment := string_of c\<rparr>) (idx + (2 + unat l)))
                 else tlv_loop n cont ro (idx + (unat l + 1))))"
  by pat_completeness auto
termination
  by (relation "measure (\<lambda>(n, cont, ro, idx). length cont - idx)")
     (auto simp: at_def split: if_splits)

text \<open>The permission bits of an access DOT, as \<open>NewDOT\<close> sets the flags from them.\<close>

definition perm_flags :: "nat \<Rightarrow> ADPS" where
  "perm_flags perm =
     \<lparr>CanPublish = (perm AND 0x0040 \<noteq> 0),
      CanConsume = (perm AND 0x0001 \<noteq> 0 \<or> perm AND 0x0002 \<noteq> 0 \<or> perm AND 0x0004 \<noteq> 0),
      CanConsumePlus = (perm AND 0x0002 \<noteq> 0 \<or> perm AND 0x0004 \<noteq> 0),
      CanConsumeStar = (perm AND 0x0004 \<noteq> 0),
      CanTap = (perm AND 0x0008 \<noteq> 0 \<or> perm AND 0x0010 \<noteq> 0 \<or> perm AND 0x0020 \<noteq> 0),
      CanTapPlus = (perm AND 0x0010 \<noteq> 0 \<or> perm AND 0x0020 \<noteq> 0),
      CanTapStar = (perm AND 0x0020 \<noteq> 0),
      CanList = (perm AND 0x0080 \<noteq> 0)\<rparr>"

definition access_tail :: "byte list \<Rightarrow> DOTObject \<Rightarrow> nat \<Rightarrow> (DOTObject \<times> nat) option" where
  "access_tail cont ro idx =
     (case Uint16 cont idx of
        None \<Rightarrow> None
      | Some perm \<Rightarrow>
          (case slice cont (idx + 2) (idx + 2 + 32) of
             None \<Rightarrow> None
           | Some m \<Rightarrow>
               (case Uint16 cont (idx + 2 + 32) of
                  None \<Rightarrow> None
                | Some ln \<Rightarrow>
                    (case slice cont (idx + 2 + 32 + 2) (idx + 2 + 32 + 2 + ln) of
                       None \<Rightarrow> None
                     | Some sfx \<Rightarrow>
                         Some (ro\<lparr>isAccessDOT := True, permissionSet := perm_flags perm, mVK := m,
                                 uriSuffix := string_of sfx\<rparr>,
                               idx + 2 + 32 + 2 + ln)))))"

text \<open>The loop over the key-value pairs of a permission DOT.\<close>

function kv_loop :: "byte list \<Rightarrow> DOTObject \<Rightarrow> nat \<Rightarrow> (DOTObject \<times> nat) option" where
  "kv_loop cont ro idx =
     (case at cont idx of
        None \<Rightarrow> None
      | Some kl \<Rightarrow>
          if unat kl = 0 then Some (ro, idx + 1)
          else
            (case slice cont (idx + 1) (idx + 1 + unat kl) of
               None \<Rightarrow> None
             | Some key \<Rightarrow>
                 (case Uint16 cont (idx + (1 + unat kl)) of
                    None \<Rightarrow> None
                  | Some valLen \<Rightarrow>
                      (case slice cont (idx + (1 + unat kl) + 2) (idx + (1 + unat kl) + 2 + valLen) of
                         None \<Rightarrow> None
                       | Some val \<Rightarrow>
                           kv_loop cont (ro\<lparr>kv := (kv ro)(string_of key \<mapsto> string_of val)\<rparr>)
                             (idx + (1 + unat kl) + (2 + valLen))))))"
  by pat_completeness auto
termination
  by (relation "measure (\<lambda>(cont, ro, idx). length cont - idx)")
     (auto simp: at_def split: if_splits)

text \<open>
  The composite literal that opens \<open>NewDOT\<close>: it reads the giver, the receiver and the
  TTL, which takes 65 bytes.
\<close>

definition dot_header :: "byte list \<Rightarrow> DOTObject option" where
  "dot_header cont =
     (case slice cont 0 32 of
        None \<Rightarrow> None
      | Some g \<Rightarrow>
          (case slice cont 32 64 of
             None \<Rightarrow> None
           | Some r \<Rightarrow>
               (case at cont 64 of
                  None \<Rightarrow> None
                | Some t \<Rightarrow>
                    Some \<lparr>giverVK = g, receiverVK = r, ttl = int (unat t), mVK = [], uriSuffix = [],
                          permissionSet = noPermissions, hash = [], content = cont, expires = None,
                          created = None, revokers = [], contact = [], comment = [], signature = [],
                          isAccessDOT = False, pubLim = None, kv = Map.empty\<rparr>)))"

definition finish_dot :: "(byte list \<Rightarrow> byte list) \<Rightarrow> byte list \<Rightarrow> DOTObject \<Rightarrow> nat
    \<Rightarrow> (ObjectError + DOTObject) option" where
  "finish_dot sha cont ro idx =
     (case slice cont 0 idx of
        None \<Rightarrow> None
      | Some covered \<Rightarrow>
          (case slice cont idx (idx + 64) of
             None \<Rightarrow> None
           | Some sig \<Rightarrow> Some (Inr (ro\<lparr>hash := sha covered, signature := sig\<rparr>))))"

definition NewDOT_body :: "(byte list \<Rightarrow> byte list) \<Rightarrow> int \<Rightarrow> byte list \<Rightarrow> (ObjectError + DOTObject) option" where
  "NewDOT_body sha n cont =
     (case dot_header cont of
        None \<Rightarrow> None
      | Some ro0 \<Rightarrow>
          (case tlv_loop n cont ro0 65 of
             None \<Rightarrow> None
           | Some (Inl e) \<Rightarrow> Some (Inl e)
           | Some (Inr (ro, idx)) \<Rightarrow>
               if n = ROAccessDOT then
                 (case access_tail cont ro idx of
                    None \<Rightarrow> None
                  | Some (ro', idx') \<Rightarrow> finish_dot sha cont ro' idx')
               else if n = ROPermissionDOT then
                 (case kv_loop cont ro idx of
                    None \<Rightarrow> None
                  | Some (ro', idx') \<Rightarrow> finish_dot sha cont ro' idx')
               else Some (Inl (NewObjectError n ''Unknown RONum''))))"

definition NewDOT :: "(byte list \<Rightarrow> byte list) \<Rightarrow> int \<Rightarrow> byte list \<Rightarrow> (ObjectError + DOTObject) option" where
  "NewDOT sha n cont = recover (NewObjectError n ''Bad DoT'') (NewDOT_body sha n cont)"

subsection \<open>LoadBosswaveObject\<close>

definition SaneObjectSize :: nat where
  "SaneObjectSize = 16 * 1024 * 1024"

datatype RoutingObject = DChainObject DChain | DOTRoutingObject DOTObject

datatype load_error = ReaderError | InsaneSize | ObjectFailed ObjectError

text \<open>
  The reader over a byte string: \<open>Read\<close> into a buffer of \<open>k\<close> bytes gives the next bytes,
  at most \<open>k\<close>, and the error \<open>io.EOF\<close> once no byte is left.
\<close>

definition Read :: "byte list \<Rightarrow> nat \<Rightarrow> byte list \<times> bool \<times> byte list" where
  "Read s k = (if s = [] then ([], True, s) else (take k s, False, drop k s))"

text \<open>The loop \<open>for totn < n { n, e := s.Read(buf[totn:]); totn += n; if e != nil { return nil, e } }\<close>.\<close>

function read_loop :: "nat \<Rightarrow> byte list \<Rightarrow> byte list \<Rightarrow> (byte list \<times> byte list) option" where
  "read_loop want buf s =
     (if length buf < want then
        (case Read s (want - length buf) of
           (chunk, e, s') \<Rightarrow> if e then None else read_loop want (buf @ chunk) s')
      else Some (buf, s))"
  by pat_completeness auto
termination
  by (relation "measure (\<lambda>(want, buf, s). want - length buf)")
     (auto simp: Read_def min_def neq_Nil_conv split: if_splits)

text \<open>The table \<open>RoutingObjectConstructor\<close>.\<close>

definition RoutingObjectConstructor ::
    "int \<rightharpoonup> ((byte list \<Rightarrow> byte list) \<Rightarrow> int \<Rightarrow> byte list \<Rightarrow> (ObjectError + RoutingObject) option)" where
  "RoutingObjectConstructor =
     [0x01 \<mapsto> (\<lambda>sha n c. map_option (map_sum id DChainObject) (NewDChain sha n c)),
      0x11 \<mapsto> (\<lambda>sha n c. map_option (map_sum id DChainObject) (NewDChain sha n c)),
      0x02 \<mapsto> (\<lambda>sha n c. map_option (map_sum id DChainObject) (NewDChain sha n c)),
      0x12 \<mapsto> (\<lambda>sha n c. map_option (map_sum id DChainObject) (NewDChain sha n c)),
      0x20 \<mapsto> (\<lambda>sha n c. map_option (map_sum id DOTRoutingObject) (NewDOT sha n c))]"

text \<open>
  \<open>LoadBosswaveObject\<close> on a byte string. It has no handler of its own: a panic of the
  constructor it calls would be its panic, \<open>None\<close>. The object number and the length are
  Go \<open>int\<close>s of 64 bits, which hold every 32-bit value.
\<close>

definition LoadBosswaveObject :: "(byte list \<Rightarrow> byte list) \<Rightarrow> byte list \<Rightarrow> (load_error + RoutingObject) option" where
  "LoadBosswaveObject sha s =
     (case read_loop 8 [] s of
        None \<Rightarrow> Some (Inl ReaderError)
      | Some (hdr, s1) \<Rightarrow>
          (let onum = int (le_uint (take 4 hdr));
               ln = le_uint (take 4 (drop 4 hdr))
           in if ln > SaneObjectSize then Some (Inl InsaneSize)
              else
                (case read_loop ln [] s1 of
                   None \<Rightarrow> Some (Inl ReaderError)
                 | Some (buf, s2) \<Rightarrow>
                     if onum AND 0xFFFFFF00 = 0 then
                       (case RoutingObjectConstructor onum of
                          None \<Rightarrow> Some (Inl (ObjectFailed (NewObjectError onum ''No such routing object constructor'')))
                        | Some constructor \<Rightarrow>
                            (case constructor sha onum buf of
                               None \<Rightarrow> None
                             | Some (Inl e) \<Rightarrow> Some (Inl (ObjectFailed e))
                             | Some (Inr obj) \<Rightarrow> Some (Inr obj)))
                     else Some (Inl (ObjectFailed (NewObjectError onum ''No constructor for this object type yet''))))))"

text \<open>A digest to run the parsers with: the constant empty digest.\<close>

definition no_digest :: "byte list \<Rightarrow> byte list" where
  "no_digest b = []"

section \<open>The chain builder (package api)\<close>

text \<open>
  Modelled from the spec: \<open>util.EverybodySlice\<close> is not among the sources. The
  specification has it as the all-zero 32-byte key, the receiver of an open grant.
\<close>

definition EverybodySlice :: vk where
  "EverybodySlice = replicate 32 0"

text \<open>
  Modelled from the spec: \<open>IsSubsetOf\<close> of \<open>objects.AccessDOTPermissionSet\<close> is not among
  the sources. The specification asks that the desired permissions be contained in those
  of the DOT: every flag of the
  desired set is at most the flag of the DOT, in the order \<open>False \<le> True\<close>.
\<close>

definition IsSubsetOf :: "ADPS \<Rightarrow> ADPS \<Rightarrow> bool" where
  "IsSubsetOf lhs rhs \<longleftrightarrow>
     CanPublish lhs \<le> CanPublish rhs \<and> CanConsume lhs \<le> CanConsume rhs \<and>
     CanConsumePlus lhs \<le> CanConsumePlus rhs \<and> CanConsumeStar lhs \<le> CanConsumeStar rhs \<and>
     CanTap lhs \<le> CanTap rhs \<and> CanTapPlus lhs \<le> CanTapPlus rhs \<and>
     CanTapStar lhs \<le> CanTapStar rhs \<and> CanList lhs \<le> CanList rhs"

record scenario =
  chain :: "DOT list"
  suffix :: string

text \<open>\<open>TTL\<close> of a scenario: the loop over the chain, starting from 256.\<close>

fun ttl_from :: "int \<Rightarrow> DOT list \<Rightarrow> int" where
  "ttl_from t [] = t"
| "ttl_from t (d # ds) = ttl_from (if ttl d < t - 1 then ttl d else t - 1) ds"

definition TTL :: "scenario \<Rightarrow> int" where
  "TTL s = ttl_from 256 (chain s)"

definition NewScenario :: "DOT \<Rightarrow> scenario" where
  "NewScenario d = \<lparr>chain = [d], suffix = uriSuffix d\<rparr>"

definition AddAndClone :: "scenario \<Rightarrow> DOT \<Rightarrow> scenario option" where
  "AddAndClone s d =
     (let cc = chain s @ [d]
      in case RestrictBy (suffix s) (uriSuffix d) of
           (nuri, okay) \<Rightarrow>
             if \<not> okay then None
             else (let rv = \<lparr>chain = cc, suffix = nuri\<rparr>
                   in if TTL rv < 0 then None else Some rv))"

definition GetTerminalVK :: "scenario \<Rightarrow> vk" where
  "GetTerminalVK s = receiverVK (last (chain s))"

text \<open>
  Modelled from the spec: \<open>objects.CreateDChain\<close> is not among the sources. It builds the
  elaborated access chain of the given DOTs; the chain hash is the SHA-256 digest of the
  concatenated DOT hashes, as \<open>NewDChain\<close> computes it. The digest is the parameter \<open>sha\<close>.
\<close>

definition ToChain :: "(byte list \<Rightarrow> byte list) \<Rightarrow> scenario \<Rightarrow> DChain" where
  "ToChain sha s =
     \<lparr>dothashes = concat (map hash (chain s)), chainhash = sha (concat (map hash (chain s))),
      dots = map Some (chain s), isAccess = True, ronum = ROAccessDChain, elaborated = True\<rparr>"

text \<open>
  The chain builder, with the fields that \<open>Build\<close> reads, and what it is given from
  outside: the resolver's list of the DOTs granted from a key, each with its state, the
  resolver of a key name, and the cache of built chains.
\<close>

record ChainBuilder =
  uri :: string
  target :: vk
  nsvk :: vk
  urisuffix :: string
  desperms :: ADPS

record BuildEnv =
  GetDOTsFrom :: "vk \<Rightarrow> (DOT \<times> int) list"
  ResolveKey :: "string \<Rightarrow> vk option"
  LookupChain :: "DChain list option"
  sha256 :: "byte list \<Rightarrow> byte list"

definition dotUseful :: "ChainBuilder \<Rightarrow> DOT \<Rightarrow> bool" where
  "dotUseful b d =
     (if mVK d \<noteq> nsvk b then False
      else if \<not> IsSubsetOf (desperms b) (permissionSet d) then False
      else (case RestrictBy (urisuffix b) (uriSuffix d) of
              (nu, ok) \<Rightarrow> if \<not> ok \<or> nu \<noteq> urisuffix b then False else True))"

fun getOptions_loop :: "ChainBuilder \<Rightarrow> (DOT \<times> int) list \<Rightarrow> DOT list" where
  "getOptions_loop b [] = []"
| "getOptions_loop b ((d, s) # dlz) =
     (if s \<noteq> StateValid then getOptions_loop b dlz
      else if dotUseful b d then d # getOptions_loop b dlz
      else getOptions_loop b dlz)"

definition getOptions :: "BuildEnv \<Rightarrow> ChainBuilder \<Rightarrow> vk \<Rightarrow> DOT list" where
  "getOptions env b from = getOptions_loop b (GetDOTsFrom env from)"

definition terminal :: "ChainBuilder \<Rightarrow> scenario \<Rightarrow> bool" where
  "terminal b s \<longleftrightarrow> GetTerminalVK s = target b \<or> GetTerminalVK s = EverybodySlice"

text \<open>
  The two lists of \<open>Build\<close>, \<open>validscenarios\<close> and \<open>evals\<close>, and the loops that fill
  them: over the initial options, and over the options of the scenario at the front of
  \<open>evals\<close>.
\<close>

fun initial_loop :: "ChainBuilder \<Rightarrow> DOT list \<Rightarrow> scenario list \<times> scenario list
    \<Rightarrow> scenario list \<times> scenario list" where
  "initial_loop b [] (validscenarios, evals) = (validscenarios, evals)"
| "initial_loop b (dt # rest) (validscenarios, evals) =
     (let s = NewScenario dt
      in if terminal b s then initial_loop b rest (validscenarios @ [s], evals)
         else initial_loop b rest (validscenarios, evals @ [s]))"

fun extend_loop :: "ChainBuilder \<Rightarrow> scenario \<Rightarrow> DOT list \<Rightarrow> scenario list \<times> scenario list
    \<Rightarrow> scenario list \<times> scenario list" where
  "extend_loop b s [] (validscenarios, evals) = (validscenarios, evals)"
| "extend_loop b s (dt # opts) (validscenarios, evals) =
     (case AddAndClone s dt of
        None \<Rightarrow> extend_loop b s opts (validscenarios, evals)
      | Some newscenario \<Rightarrow>
          if terminal b newscenario
          then extend_loop b s opts (validscenarios @ [newscenario], evals)
          else extend_loop b s opts (validscenarios, evals @ [newscenario]))"

text \<open>
  The graph walk \<open>for evals.Front() != nil\<close>. It runs on fuel, one unit for each scenario
  taken from the front; \<open>None\<close> is a walk that the fuel does not finish.
\<close>

fun walk :: "nat \<Rightarrow> BuildEnv \<Rightarrow> ChainBuilder \<Rightarrow> scenario list \<times> scenario list
    \<Rightarrow> scenario list option" where
  "walk n env b (validscenarios, []) = Some validscenarios"
| "walk 0 env b (validscenarios, s # evals) = None"
| "walk (Suc n) env b (validscenarios, s # evals) =
     walk n env b
       (case extend_loop b s (getOptions env b (GetTerminalVK s)) (validscenarios, s # evals) of
          (validscenarios', evals') \<Rightarrow> (validscenarios', tl evals'))"

text \<open>
  The last loop of \<open>Build\<close>. The map \<open>seen\<close> is read for the key of every chain; no
  statement of the loop writes to it.
\<close>

fun dedup_loop :: "(byte list \<Rightarrow> byte list) \<Rightarrow> (byte list \<rightharpoonup> bool) \<Rightarrow> scenario list
    \<Rightarrow> DChain list \<Rightarrow> DChain list" where
  "dedup_loop sha seen [] rv = rv"
| "dedup_loop sha seen (e # es) rv =
     (let chn = ToChain sha e;
          k = chainhash chn
      in if seen k = None then dedup_loop sha seen es (rv @ [chn])
         else dedup_loop sha seen es rv)"

text \<open>\<open>strings.SplitN(s, "/", 2)\<close>: the string cut at its first slash, if it has one.\<close>

fun splitN2 :: "string \<Rightarrow> string list" where
  "splitN2 s =
     (if CHR ''/'' \<in> set s
      then [takeWhile (\<lambda>c. c \<noteq> CHR ''/'') s, tl (dropWhile (\<lambda>c. c \<noteq> CHR ''/'') s)]
      else [s])"

datatype build_error = InvalidURI | ResolveFailed

definition Build :: "nat \<Rightarrow> BuildEnv \<Rightarrow> ChainBuilder \<Rightarrow> (build_error + DChain list) option" where
  "Build fuel env b =
     (case LookupChain env of
        Some cached \<Rightarrow> Some (Inr cached)
      | None \<Rightarrow>
          (let parts = splitN2 (uri b)
           in if length parts \<noteq> 2 then Some (Inl InvalidURI)
              else if \<not> valid (AnalyzeSuffix (parts ! 1)) then Some (Inl InvalidURI)
              else (case ResolveKey env (parts ! 0) of
                      None \<Rightarrow> Some (Inl ResolveFailed)
                    | Some m \<Rightarrow>
                        (case walk fuel env b (initial_loop b (getOptions env b m) ([], [])) of
                           None \<Rightarrow> None
                         | Some validscenarios \<Rightarrow>
                             Some (Inr (dedup_loop (sha256 env) Map.empty validscenarios []))))))"

text \<open>
  A registry that lists the one DOT granted from the namespace key twice, and a builder
  of chains to the receiver of that DOT.
\<close>

definition dotMB :: DOT where
  "dotMB = (grant vkM vkB 3 vkM ''a/*'' perm_C)\<lparr>hash := replicate 32 9\<rparr>"

definition twice_listed :: "(byte list \<Rightarrow> byte list) \<Rightarrow> BuildEnv" where
  "twice_listed sha =
     \<lparr>GetDOTsFrom = (\<lambda>k. if k = vkM then [(dotMB, StateValid), (dotMB, StateValid)] else []),
      ResolveKey = (\<lambda>n. if n = ''m'' then Some vkM else None),
      LookupChain = None,
      sha256 = sha\<rparr>"

definition builder_to_B :: ChainBuilder where
  "builder_to_B = \<lparr>uri = ''m/a/b'', target = vkB, nsvk = vkM, urisuffix = ''a/b'', desperms = perm_C\<rparr>"

section \<open>Properties of the URI algebra\<close>

subsection \<open>RestrictBy is symmetric and idempotent\<close>


declare phase1.simps [simp del] phase2.simps [simp del] emit_front.simps [simp del] emit_back.simps [simp del]

lemma swap_sel [simp]:
  "fi (swap s) = bi s" "bi (swap s) = fi s" "fni (swap s) = bni s" "bni (swap s) = fni s"
  "fout (swap s) = fout s" "bout (swap s) = bout s"
  by (simp_all add: swap_def)

lemma swap_upd [simp]:
  "swap (s\<lparr>fout := a, fi := b, bi := c\<rparr>) = (swap s)\<lparr>fout := a, fi := c, bi := b\<rparr>"
  "swap (s\<lparr>bout := a, fni := b, bni := c\<rparr>) = (swap s)\<lparr>bout := a, fni := c, bni := b\<rparr>"
  "swap (s\<lparr>bi := i, fout := out\<rparr>) = (swap s)\<lparr>fi := i, fout := out\<rparr>"
  "swap (s\<lparr>fi := i, fout := out\<rparr>) = (swap s)\<lparr>bi := i, fout := out\<rparr>"
  "swap (s\<lparr>bni := i, bout := out\<rparr>) = (swap s)\<lparr>fni := i, bout := out\<rparr>"
  "swap (s\<lparr>fni := i, bout := out\<rparr>) = (swap s)\<lparr>bni := i, bout := out\<rparr>"
  by (simp_all add: swap_def)

lemma phase1_swap: "phase1 bp fp (swap s) = swap (phase1 fp bp s)"
proof (induction fp bp s rule: phase1.induct)
  case (1 fp bp s)
  show ?case
    by (subst phase1.simps [of fp bp s], subst phase1.simps [of bp fp "swap s"])
       (use 1 in \<open>auto\<close>)
qed

lemma phase2_swap: "phase2 bp fp (swap s) = swap (phase2 fp bp s)"
proof (induction fp bp s rule: phase2.induct)
  case (1 fp bp s)
  show ?case
    by (subst phase2.simps [of fp bp s], subst phase2.simps [of bp fp "swap s"])
       (use 1 in \<open>auto\<close>)
qed

lemma emit_front_star: "cell xs i = ''*'' \<Longrightarrow> emit_front xs i ni out = (i, out)"
  by (subst emit_front.simps) simp

lemma emit_back_star: "cell xs ni = ''*'' \<Longrightarrow> emit_back xs i ni out = (ni, out)"
  by (subst emit_back.simps) simp


lemma phase3_swap: "phase3 bp fp (swap s) = swap (phase3 fp bp s)"
proof (cases "fi s < int (length fp) \<and> cell fp (fi s) = ''*''")
  case f: True
  show ?thesis
  proof (cases "bi s < int (length bp) \<and> cell bp (bi s) = ''*''")
    case True
    with f show ?thesis by (simp add: phase3_def emit_front_star swap_def)
  next
    case False
    have l: "phase3 bp fp (swap s) =
        (case emit_front bp (bi s) (bni s) (fout s) of (i, out) \<Rightarrow> (swap s)\<lparr>fi := i, fout := out\<rparr>)"
      unfolding phase3_def swap_sel by (simp add: f False)
    have r: "phase3 fp bp s =
        (case emit_front bp (bi s) (bni s) (fout s) of (i, out) \<Rightarrow> s\<lparr>bi := i, fout := out\<rparr>)"
      unfolding phase3_def by (simp add: f)
    show ?thesis unfolding l r by (simp split: prod.splits)
  qed
next
  case f: False
  show ?thesis
  proof (cases "bi s < int (length bp) \<and> cell bp (bi s) = ''*''")
    case True
    have l: "phase3 bp fp (swap s) =
        (case emit_front fp (fi s) (fni s) (fout s) of (i, out) \<Rightarrow> (swap s)\<lparr>bi := i, fout := out\<rparr>)"
      unfolding phase3_def swap_sel by (simp add: True)
    have r: "phase3 fp bp s =
        (case emit_front fp (fi s) (fni s) (fout s) of (i, out) \<Rightarrow> s\<lparr>fi := i, fout := out\<rparr>)"
      unfolding phase3_def by (simp add: f True)
    show ?thesis unfolding l r by (simp split: prod.splits)
  next
    case False
    have l: "phase3 bp fp (swap s) = swap s"
      unfolding phase3_def swap_sel by (simp add: f False)
    have r: "phase3 fp bp s = s"
      unfolding phase3_def by (simp add: f False)
    show ?thesis unfolding l r ..
  qed
qed

lemma phase4_swap: "phase4 bp fp (swap s) = swap (phase4 fp bp s)"
proof (cases "fni s \<ge> 0 \<and> cell fp (fni s) = ''*''")
  case f: True
  show ?thesis
  proof (cases "bni s \<ge> 0 \<and> cell bp (bni s) = ''*''")
    case True
    with f show ?thesis by (simp add: phase4_def emit_back_star swap_def)
  next
    case False
    have l: "phase4 bp fp (swap s) =
        (case emit_back bp (bi s) (bni s) (bout s) of (i, out) \<Rightarrow> (swap s)\<lparr>fni := i, bout := out\<rparr>)"
      unfolding phase4_def swap_sel by (simp add: f False)
    have r: "phase4 fp bp s =
        (case emit_back bp (bi s) (bni s) (bout s) of (i, out) \<Rightarrow> s\<lparr>bni := i, bout := out\<rparr>)"
      unfolding phase4_def by (simp add: f)
    show ?thesis unfolding l r by (simp split: prod.splits)
  qed
next
  case f: False
  show ?thesis
  proof (cases "bni s \<ge> 0 \<and> cell bp (bni s) = ''*''")
    case True
    have l: "phase4 bp fp (swap s) =
        (case emit_back fp (fi s) (fni s) (bout s) of (i, out) \<Rightarrow> (swap s)\<lparr>bni := i, bout := out\<rparr>)"
      unfolding phase4_def swap_sel by (simp add: True)
    have r: "phase4 fp bp s =
        (case emit_back fp (fi s) (fni s) (bout s) of (i, out) \<Rightarrow> s\<lparr>fni := i, bout := out\<rparr>)"
      unfolding phase4_def by (simp add: f True)
    show ?thesis unfolding l r by (simp split: prod.splits)
  next
    case False
    have l: "phase4 bp fp (swap s) = swap s"
      unfolding phase4_def swap_sel by (simp add: f False)
    have r: "phase4 fp bp s = s"
      unfolding phase4_def by (simp add: f False)
    show ?thesis unfolding l r ..
  qed
qed

lemma phase5_swap: "phase5 bp fp (swap s) = phase5 fp bp s"
proof -
  have c: "(bi s = bni s \<and> cell bp (bi s) = ''*'' \<and> fi s = fni s \<and> cell fp (fi s) = ''*'')
         = (fi s = fni s \<and> cell fp (fi s) = ''*'' \<and> bi s = bni s \<and> cell bp (bi s) = ''*'')"
    by blast
  have d: "\<And>P Q. (Q \<and> P) = (P \<and> Q)" by blast
  show ?thesis
    unfolding phase5_def Let_def swap_sel c
    by (rule if_cong [OF refl refl]) (simp only: d [of "_ \<or> _ = int (length fp)"])
qed

lemma RestrictBy_sym: "RestrictBy a b = RestrictBy b a"
proof -
  let ?fp = "split_slash a" and ?bp = "split_slash b"
  let ?s0 = "\<lparr>fi = 0, bi = 0, fni = int (length ?fp) - 1, bni = int (length ?bp) - 1,
                fout = [], bout = []\<rparr>"
  let ?t0 = "\<lparr>fi = 0, bi = 0, fni = int (length ?bp) - 1, bni = int (length ?fp) - 1,
                fout = [], bout = []\<rparr>"
  have t0: "?t0 = swap ?s0" by (simp add: swap_def)
  have "RestrictBy b a = phase5 ?bp ?fp (phase4 ?bp ?fp (phase3 ?bp ?fp (phase2 ?bp ?fp (phase1 ?bp ?fp ?t0))))"
    by (simp add: RestrictBy_def Let_def)
  also have "\<dots> = phase5 ?fp ?bp (phase4 ?fp ?bp (phase3 ?fp ?bp (phase2 ?fp ?bp (phase1 ?fp ?bp ?s0))))"
    unfolding t0 phase1_swap phase2_swap phase3_swap phase4_swap phase5_swap ..
  also have "\<dots> = RestrictBy a b"
    by (simp add: RestrictBy_def Let_def)
  finally show ?thesis by simp
qed

lemma split_slash_nonempty: "split_slash s \<noteq> []"
  by (induction s) (auto split: list.splits)

lemma join_split: "join_slash (split_slash s) = s"
proof (induction s)
  case Nil show ?case by simp
next
  case (Cons c cs)
  obtain x xs where sp: "split_slash cs = x # xs"
    using split_slash_nonempty [of cs] by (cases "split_slash cs") auto
  show ?case using Cons sp by (cases xs) auto
qed

lemma phase1_same_aux:
  "fp = bp \<Longrightarrow> fi s = bi s \<Longrightarrow> 0 \<le> fi s \<Longrightarrow> fi s \<le> int (length fp) \<Longrightarrow>
   phase1 fp bp s = s\<lparr>fout := fout s @ drop (nat (fi s)) fp, fi := int (length fp), bi := int (length fp)\<rparr>"
proof (induction fp bp s rule: phase1.induct)
  case (1 fp bp s)
  show ?case
  proof (cases "fi s < int (length fp)")
    case True
    have d: "drop (nat (fi s)) fp = cell fp (fi s) # drop (nat (fi s + 1)) fp"
      using True 1(5) by (simp add: cell_def Cons_nth_drop_Suc nat_add_distrib)
    let ?s' = "s\<lparr>fout := fout s @ [cell fp (fi s)], fi := fi s + 1, bi := bi s + 1\<rparr>"
    have step: "phase1 fp bp s = phase1 fp bp ?s'"
      by (subst phase1.simps) (use True 1(3,4) in simp)
    have "phase1 fp bp ?s' = ?s'\<lparr>fout := fout ?s' @ drop (nat (fi ?s')) fp, fi := int (length fp), bi := int (length fp)\<rparr>"
      by (rule 1(1)) (use True 1(3-6) in simp_all)
    then show ?thesis unfolding step using d by simp
  next
    case False
    then have e: "fi s = int (length fp)" using 1(6) by simp
    show ?thesis by (subst phase1.simps) (use e 1(4) in simp)
  qed
qed

lemma phase2_done: "fni s < fi s \<Longrightarrow> phase2 fp bp s = s"
  by (subst phase2.simps) simp

lemma emit_back_done: "ni < i \<Longrightarrow> emit_back xs i ni out = (ni, out)"
  by (subst emit_back.simps) simp

lemma RestrictBy_idem: "RestrictBy a a = (a, True)"
proof -
  let ?p = "split_slash a"
  let ?n = "int (length ?p)"
  let ?s0 = "\<lparr>fi = 0, bi = 0, fni = ?n - 1, bni = ?n - 1, fout = [], bout = []\<rparr>"
  let ?s1 = "\<lparr>fi = ?n, bi = ?n, fni = ?n - 1, bni = ?n - 1, fout = ?p, bout = []\<rparr>"
  have p1: "phase1 ?p ?p ?s0 = ?s1"
    by (subst phase1_same_aux) simp_all
  have p2: "phase2 ?p ?p ?s1 = ?s1" by (rule phase2_done) simp
  have p3: "phase3 ?p ?p ?s1 = ?s1" by (simp add: phase3_def)
  have p4: "phase4 ?p ?p ?s1 = ?s1" by (simp add: phase4_def emit_back_done)
  have p5: "phase5 ?p ?p ?s1 = (a, True)"
    by (simp add: phase5_def emit_def join_split)
  show ?thesis
    unfolding RestrictBy_def Let_def p1 p2 p3 p4 p5 ..
qed


subsection \<open>AnalyzeSuffix against the specification\<close>











subsection \<open>The claims on the URI algebra\<close>

text \<open>
  C6. For all suffixes \<open>a\<close> and \<open>b\<close> that \<open>AnalyzeSuffix\<close> accepts, \<open>RestrictBy a b\<close> and
  \<open>RestrictBy b a\<close> are the same pair: both fail, or both succeed with the same URI.
  Moreover \<open>RestrictBy a a\<close> succeeds and returns \<open>a\<close> itself.
\<close>

theorem RestrictBy_commutative_idempotent:
  assumes "valid (AnalyzeSuffix a)" and "valid (AnalyzeSuffix b)"
  shows "RestrictBy a b = RestrictBy b a \<and> RestrictBy a a = (a, True)"
  using RestrictBy_sym [of a b] RestrictBy_idem [of a] by simp

theorem RestrictBy_commutative_idempotent_witness:
  "valid (AnalyzeSuffix ''a/*'') \<and> valid (AnalyzeSuffix ''a/b/+'') \<and>
   RestrictBy ''a/*'' ''a/b/+'' = RestrictBy ''a/b/+'' ''a/*'' \<and>
   RestrictBy ''a/*'' ''a/*'' = (''a/*'', True)"
proof -
  have va: "valid (AnalyzeSuffix ''a/*'')" by code_simp
  have vb: "valid (AnalyzeSuffix ''a/b/+'')" by code_simp
  show ?thesis
    using va vb RestrictBy_commutative_idempotent [OF va vb] by simp
qed




section \<open>Properties of chain analysis\<close>



lemma chain_loop_append:
  "chain_loop m (xs @ ys) st = (case chain_loop m xs st of Inl e \<Rightarrow> Inl e | Inr st' \<Rightarrow> chain_loop m ys st')"
  by (induction xs arbitrary: st) (auto split: sum.splits)

lemma link_step_ttl: "(\<exists>s'. link_step m d st = Inl (TTLExpired, s')) \<longleftrightarrow> l_ttl st = 0"
  by (auto simp: link_step_def Let_def split: prod.splits if_splits)

lemma link_step_ok:
  assumes "l_ttl st \<noteq> 0" "l_tail st = giverVK d" "m = mVK d" "snd (RestrictBy (l_uri st) (uriSuffix d))"
    "l_ttl st \<le> ttl d"
  shows "link_step m d st = Inr (st\<lparr>l_ttl := l_ttl st - 1, l_ps := ReduceBy (l_ps st) (permissionSet d),
           l_uri := fst (RestrictBy (l_uri st) (uriSuffix d)), l_tail := receiverVK d\<rparr>)"
  using assms by (cases "RestrictBy (l_uri st) (uriSuffix d)") (simp add: link_step_def Let_def)

lemma chain_loop_ttl:
  "links_valid m (l_tail st) (l_uri st) ds \<Longrightarrow> 0 \<le> l_ttl st \<Longrightarrow> \<forall>d \<in> set ds. l_ttl st \<le> ttl d \<Longrightarrow>
   (if int (length ds) \<le> l_ttl st
    then \<exists>st'. chain_loop m ds st = Inr st' \<and> l_ttl st' = l_ttl st - int (length ds)
    else \<exists>st'. chain_loop m ds st = Inl (TTLExpired, st'))"
proof (induction ds arbitrary: st)
  case Nil
  then show ?case by simp
next
  case (Cons d ds)
  show ?case
  proof (cases "l_ttl st = 0")
    case True
    then have "link_step m d st = Inl (TTLExpired, st)" by (simp add: link_step_def)
    then show ?thesis using True by simp
  next
    case False
    let ?st' = "st\<lparr>l_ttl := l_ttl st - 1, l_ps := ReduceBy (l_ps st) (permissionSet d),
           l_uri := fst (RestrictBy (l_uri st) (uriSuffix d)), l_tail := receiverVK d\<rparr>"
    have s: "link_step m d st = Inr ?st'"
      using Cons.prems False by (intro link_step_ok) simp_all
    have "if int (length ds) \<le> l_ttl ?st'
      then \<exists>st'. chain_loop m ds ?st' = Inr st' \<and> l_ttl st' = l_ttl ?st' - int (length ds)
      else \<exists>st'. chain_loop m ds ?st' = Inl (TTLExpired, st')"
      using Cons.prems False by (intro Cons.IH) auto
    then show ?thesis using s by (auto split: if_splits)
  qed
qed

lemma Analyze_unfold:
  "snd (RestrictBy U (uriSuffix d0)) \<Longrightarrow> giverVK d0 = mVK d0 \<Longrightarrow>
   map_option err (AnalyzeAccessDOTChain mtype U (d0 # ds)) =
     (case chain_loop (mVK d0) ds (st_first U d0) of
        Inl (e, st) \<Rightarrow> Some (Some e)
      | Inr st \<Rightarrow> Some (if \<not> valid (AnalyzeSuffix (l_uri st)) then Some OverconstrainedURI
                        else op_gate mtype (l_ps st) (hasStar (AnalyzeSuffix (l_uri st))) (hasPlus (AnalyzeSuffix (l_uri st)))))"
  by (cases "RestrictBy U (uriSuffix d0)")
     (auto simp: AnalyzeAccessDOTChain_def st_first_def Let_def split: sum.splits prod.splits)

lemma op_gate_range: "op_gate mtype p a b \<in> {None, Some BadPermissions, Some BadOperation}"
  by (simp add: op_gate_def)

lemma Analyze_origin:
  "snd (RestrictBy U (uriSuffix d0)) \<Longrightarrow> giverVK d0 \<noteq> mVK d0 \<Longrightarrow>
   map_option err (AnalyzeAccessDOTChain mtype U (d0 # ds)) = Some (Some ChainOriginNotMVK)"
  by (cases "RestrictBy U (uriSuffix d0)") (auto simp: AnalyzeAccessDOTChain_def Let_def)

lemma Analyze_baduri:
  "\<not> snd (RestrictBy U (uriSuffix d0)) \<Longrightarrow>
   map_option err (AnalyzeAccessDOTChain mtype U (d0 # ds)) = Some (Some BadURI)"
  by (cases "RestrictBy U (uriSuffix d0)") (auto simp: AnalyzeAccessDOTChain_def Let_def)

lemma ttl_general:
  assumes v: "chain_valid U dc" and t: "\<forall>d \<in> set dc. ttl d = T" and T: "0 \<le> T"
  shows "(map_option err (AnalyzeAccessDOTChain mtype U dc) = Some (Some TTLExpired)) \<longleftrightarrow> T + 1 < int (length dc)"
proof -
  obtain d0 ds where dc: "dc = d0 # ds" using v by (cases dc) (auto simp: chain_valid_def)
  have u: "snd (RestrictBy U (uriSuffix d0))" and g: "giverVK d0 = mVK d0"
    and l: "links_valid (mVK d0) (l_tail (st_first U d0)) (l_uri (st_first U d0)) ds"
    using v by (simp_all add: chain_valid_def dc st_first_def)
  have t0: "l_ttl (st_first U d0) = T" using t by (simp add: dc st_first_def)
  have c: "if int (length ds) \<le> l_ttl (st_first U d0)
    then \<exists>st'. chain_loop (mVK d0) ds (st_first U d0) = Inr st' \<and> l_ttl st' = l_ttl (st_first U d0) - int (length ds)
    else \<exists>st'. chain_loop (mVK d0) ds (st_first U d0) = Inl (TTLExpired, st')"
    using l t T t0 by (intro chain_loop_ttl) (auto simp: dc)
  show ?thesis
  proof (cases "int (length ds) \<le> T")
    case True
    then obtain st' where "chain_loop (mVK d0) ds (st_first U d0) = Inr st'" using c t0 by auto
    then show ?thesis
      using True op_gate_range [of mtype "l_ps st'" "hasStar (AnalyzeSuffix (l_uri st'))" "hasPlus (AnalyzeSuffix (l_uri st'))"]
      unfolding dc Analyze_unfold [OF u g] by auto
  next
    case False
    then obtain st' where "chain_loop (mVK d0) ds (st_first U d0) = Inl (TTLExpired, st')" using c t0 by auto
    then show ?thesis using False unfolding dc Analyze_unfold [OF u g] by simp
  qed
qed

lemma chain_loop_tail:
  "chain_loop m pre st0 = Inr st \<Longrightarrow> l_tail st = (if pre = [] then l_tail st0 else receiverVK (last pre))"
proof (induction pre arbitrary: st0)
  case Nil then show ?case by simp
next
  case (Cons d pre)
  then obtain s1 where s1: "link_step m d st0 = Inr s1" "chain_loop m pre s1 = Inr st"
    by (auto split: sum.splits)
  have "l_tail s1 = receiverVK d" using s1(1)
    by (auto simp: link_step_def Let_def split: if_splits prod.splits)
  then show ?case using Cons.IH [OF s1(2)] by simp
qed

lemma link_step_badlink:
  "(\<exists>s'. link_step m d st = Inl (BadLink, s')) \<longleftrightarrow> l_ttl st \<noteq> 0 \<and> (l_tail st \<noteq> giverVK d \<or> m \<noteq> mVK d)"
  by (auto simp: link_step_def Let_def split: prod.splits if_splits)

lemma link_step_errs:
  "link_step m d st = Inl (e, s') \<Longrightarrow> e \<in> {TTLExpired, BadLink, OverconstrainedURI}"
  by (auto simp: link_step_def Let_def split: prod.splits if_splits)

lemma grant_sel [simp]:
  "giverVK (grant g r t m s p) = g" "receiverVK (grant g r t m s p) = r" "ttl (grant g r t m s p) = t"
  "mVK (grant g r t m s p) = m" "uriSuffix (grant g r t m s p) = s" "permissionSet (grant g r t m s p) = p"
  by (simp_all add: grant_def)

lemma vk_distinct [simp]:
  "vkM \<noteq> vkA" "vkA \<noteq> vkM" "vkA \<noteq> vkB" "vkB \<noteq> vkA" "vkM \<noteq> vkB" "vkB \<noteq> vkM"
  by (simp_all add: vkM_def vkA_def vkB_def)



lemma rb_ab: "RestrictBy ''a/b'' ''a/*'' = (''a/b'', True)" by code_simp
lemma as_ab: "AnalyzeSuffix ''a/b'' = \<lparr>valid = True, hasStar = False, hasPlus = False, hasDollar = False, hasBang = False\<rparr>" by code_simp

lemma reduce_CstarT: "ReduceBy perm_CstarT perm_CstarT = perm_CstarT"
  by (simp add: ReduceBy_def perm_CstarT_def noPermissions_def)

text \<open>
  C2, as the code has it. For a chain whose links and URIs are valid and whose DOTs all
  have the TTL \<open>T\<close>, the analysis fails with \<open>TTLExpired\<close> exactly when the chain has more
  than \<open>T + 1\<close> DOTs: with TTL 3, a chain of four DOTs passes the TTL check and a chain of
  five fails at the fifth DOT. In general a link raises \<open>TTLExpired\<close> exactly when the
  running TTL is zero before it is decremented, that is, when decrementing would make it
  negative.
\<close>

theorem ttl_exhaustion:
  assumes "chain_valid U dc" and "\<forall>d \<in> set dc. ttl d = T" and "0 \<le> T"
  shows "((map_option err (AnalyzeAccessDOTChain mtype U dc) = Some (Some TTLExpired)) \<longleftrightarrow>
           T + 1 < int (length dc)) \<and>
         ((\<exists>s'. link_step m d st = Inl (TTLExpired, s')) \<longleftrightarrow> l_ttl st = 0)"
  using ttl_general [OF assms, of mtype] link_step_ttl [of m d st] by simp

theorem ttl_exhaustion_witness:
  "chain_valid ''a/b'' ttl3_chain5 \<and> map ttl ttl3_chain5 = [3, 3, 3, 3, 3] \<and>
   map_option err (AnalyzeAccessDOTChain TypeSubscribe ''a/b'' ttl3_chain5) = Some (Some TTLExpired)"
proof -
  have v: "chain_valid ''a/b'' ttl3_chain5"
    by (simp add: chain_valid_def ttl3_chain5_def ttl3_chain4_def rb_ab)
  have t: "\<forall>d \<in> set ttl3_chain5. ttl d = 3"
    by (simp add: ttl3_chain5_def ttl3_chain4_def)
  have n: "(3::int) + 1 < int (length ttl3_chain5)"
    by (simp add: ttl3_chain5_def ttl3_chain4_def)
  have "map_option err (AnalyzeAccessDOTChain TypeSubscribe ''a/b'' ttl3_chain5) = Some (Some TTLExpired)"
    using ttl_exhaustion [OF v t, of TypeSubscribe] n by simp
  then show ?thesis using v by (simp add: ttl3_chain5_def ttl3_chain4_def)
qed

text \<open>
  C2 as it was stated does not hold: a valid chain of four DOTs of TTL 3 is analysed
  without any error.
\<close>

theorem ttl_four_hops_counterexample:
  "chain_valid ''a/b'' ttl3_chain4 \<and> map ttl ttl3_chain4 = [3, 3, 3, 3] \<and>
   map_option err (AnalyzeAccessDOTChain TypeSubscribe ''a/b'' ttl3_chain4) = Some None"
proof -
  have v: "chain_valid ''a/b'' ttl3_chain4"
    by (simp add: chain_valid_def ttl3_chain4_def rb_ab)
  have c: "CanConsume perm_CstarT" by (simp add: perm_CstarT_def noPermissions_def)
  have e: "map_option err (AnalyzeAccessDOTChain TypeSubscribe ''a/b'' ttl3_chain4) = Some None"
    using c
    by (simp add: AnalyzeAccessDOTChain_def ttl3_chain4_def link_step_def Let_def rb_ab as_ab
        reduce_CstarT op_gate_def TypeSubscribe_def TypePublish_def TypePersist_def TypeQuery_def)
  show ?thesis using v e by (simp add: ttl3_chain4_def)
qed

text \<open>
  C3, as the code has it. Let the first DOT pass its checks and the links before link
  \<open>i\<close> raise no error, leaving the loop in the state \<open>st\<close>, whose tail is the receiver of
  the DOT before. Then the analysis of the chain up to link \<open>i\<close> returns \<open>BadLink\<close> if and
  only if the running TTL is not zero and the receiver of the DOT before differs from the
  giver of the DOT at \<open>i\<close> or that DOT lies in another namespace; under that condition
  every longer chain returns \<open>BadLink\<close> as well. When the running TTL is zero the result
  is \<open>TTLExpired\<close>, whatever the link. When the giver of the first DOT differs from its
  namespace key the result is \<open>ChainOriginNotMVK\<close>, provided the target URI restricts by
  the suffix of the first DOT; when it does not, the result is \<open>BadURI\<close>.
\<close>

theorem bad_link:
  assumes "snd (RestrictBy U (uriSuffix d0))" and "giverVK d0 = mVK d0"
    and "chain_loop (mVK d0) pre (st_first U d0) = Inr st"
  shows "l_tail st = receiverVK (last (d0 # pre)) \<and>
    ((map_option err (AnalyzeAccessDOTChain mtype U (d0 # pre @ [d])) = Some (Some BadLink)) \<longleftrightarrow>
       l_ttl st \<noteq> 0 \<and> (receiverVK (last (d0 # pre)) \<noteq> giverVK d \<or> mVK d \<noteq> mVK d0)) \<and>
    (l_ttl st \<noteq> 0 \<and> (receiverVK (last (d0 # pre)) \<noteq> giverVK d \<or> mVK d \<noteq> mVK d0) \<longrightarrow>
       map_option err (AnalyzeAccessDOTChain mtype U (d0 # pre @ d # post)) = Some (Some BadLink)) \<and>
    (l_ttl st = 0 \<longrightarrow>
       map_option err (AnalyzeAccessDOTChain mtype U (d0 # pre @ d # post)) = Some (Some TTLExpired)) \<and>
    (snd (RestrictBy U (uriSuffix e0)) \<and> giverVK e0 \<noteq> mVK e0 \<longrightarrow>
       map_option err (AnalyzeAccessDOTChain mtype U (e0 # es)) = Some (Some ChainOriginNotMVK)) \<and>
    (\<not> snd (RestrictBy U (uriSuffix e0)) \<longrightarrow>
       map_option err (AnalyzeAccessDOTChain mtype U (e0 # es)) = Some (Some BadURI))"
proof -
  have tl: "l_tail st = receiverVK (last (d0 # pre))"
    using chain_loop_tail [OF assms(3)] by (simp add: st_first_def)
  have loop: "\<And>ys. chain_loop (mVK d0) (pre @ ys) (st_first U d0) = chain_loop (mVK d0) ys st"
    by (simp add: chain_loop_append assms(3))
  have bl: "(\<exists>s'. link_step (mVK d0) d st = Inl (BadLink, s')) \<longleftrightarrow>
      l_ttl st \<noteq> 0 \<and> (receiverVK (last (d0 # pre)) \<noteq> giverVK d \<or> mVK d \<noteq> mVK d0)"
    unfolding link_step_badlink tl by auto
  have a: "(map_option err (AnalyzeAccessDOTChain mtype U (d0 # pre @ [d])) = Some (Some BadLink)) \<longleftrightarrow>
      (\<exists>s'. link_step (mVK d0) d st = Inl (BadLink, s'))"
  proof (cases "link_step (mVK d0) d st")
    case (Inl p)
    then show ?thesis
      unfolding Analyze_unfold [OF assms(1,2)] loop by (cases p) simp
  next
    case (Inr s1)
    then show ?thesis
      using op_gate_range [of mtype "l_ps s1" "hasStar (AnalyzeSuffix (l_uri s1))" "hasPlus (AnalyzeSuffix (l_uri s1))"]
      unfolding Analyze_unfold [OF assms(1,2)] loop by auto
  qed
  have b: "(\<exists>s'. link_step (mVK d0) d st = Inl (BadLink, s')) \<Longrightarrow>
      map_option err (AnalyzeAccessDOTChain mtype U (d0 # pre @ d # post)) = Some (Some BadLink)"
    unfolding Analyze_unfold [OF assms(1,2)] loop by auto
  have c: "l_ttl st = 0 \<Longrightarrow>
      map_option err (AnalyzeAccessDOTChain mtype U (d0 # pre @ d # post)) = Some (Some TTLExpired)"
    unfolding Analyze_unfold [OF assms(1,2)] loop by (simp add: link_step_def)
  show ?thesis
    using tl a b c bl Analyze_origin [of U e0 mtype es] Analyze_baduri [of U e0 mtype es] by blast
qed

lemma rb_a_b: "RestrictBy ''b'' ''a'' = ([], False)" by code_simp

theorem bad_link_witness:
  "map_option err (AnalyzeAccessDOTChain TypeSubscribe ''a/b''
     [grant vkM vkA 3 vkM ''a/*'' perm_CstarT, grant vkB vkC 3 vkM ''a/*'' perm_CstarT])
   = Some (Some BadLink)"
proof -
  let ?d0 = "grant vkM vkA 3 vkM ''a/*'' perm_CstarT"
  have 1: "snd (RestrictBy ''a/b'' (uriSuffix ?d0))" by (simp add: rb_ab)
  have 2: "giverVK ?d0 = mVK ?d0" by simp
  have 3: "chain_loop (mVK ?d0) [] (st_first ''a/b'' ?d0) = Inr (st_first ''a/b'' ?d0)" by simp
  show ?thesis
    using bad_link [OF 1 2 3, of TypeSubscribe "grant vkB vkC 3 vkM ''a/*'' perm_CstarT"]
    by (simp add: st_first_def)
qed

text \<open>
  C3 as it was stated does not hold. A first DOT of TTL 0 followed by a DOT with the
  wrong giver gives \<open>TTLExpired\<close>, not \<open>BadLink\<close>, although no earlier link raised an
  error; and a single DOT whose giver is not the namespace key gives \<open>BadURI\<close>, not
  \<open>ChainOriginNotMVK\<close>, when the target does not restrict by its suffix.
\<close>

theorem bad_link_order_counterexample:
  "map_option err (AnalyzeAccessDOTChain TypeSubscribe ''a/b''
     [grant vkM vkA 0 vkM ''a/*'' perm_CstarT, grant vkB vkC 3 vkM ''a/*'' perm_CstarT])
   = Some (Some TTLExpired) \<and>
   map_option err (AnalyzeAccessDOTChain TypeSubscribe ''b''
     [grant vkA vkB 3 vkM ''a'' perm_CstarT]) = Some (Some BadURI)"
  by (simp add: AnalyzeAccessDOTChain_def link_step_def Let_def rb_ab rb_a_b)

section \<open>Properties of the terminus\<close>

lemma star_leaf_never_matches: "rmatchSubs (Snode [] ss) (p # parts) = []"
  by simp

lemma deliver_taps: "tap s \<Longrightarrow> s \<in> set xs \<Longrightarrow> s \<in> set (deliver consumers count xs)"
  by (induction xs arbitrary: count) auto

text \<open>
  C5 on the code. Seven clients subscribe, one under each of the patterns \<open>a/+/c\<close>,
  \<open>a/b/+\<close>, \<open>*/c\<close>, \<open>a/*\<close>, \<open>*\<close>, \<open>a/b\<close> and \<open>a/b/c/d\<close>. Matching the topic
  \<open>a/b/c\<close> visits the subscriptions under the first three patterns only: the loop over
  the remainders handed to a star child stops before the empty remainder, so a
  subscription stored under a pattern that ends in a star is not visited.
\<close>

theorem trailing_star_not_visited:
  "map client (RMatchSubs wildcard_tree ''a/b/c'') = [2, 1, 3] \<and>
   RMatchSubs (AddSub NewSnode ''a/*'' (sub_of 4 False)) ''a/b/c'' = [] \<and>
   RMatchSubs (AddSub NewSnode ''*'' (sub_of 5 False)) ''a/b/c'' = []"
  by code_simp

text \<open>
  C4 on the code. One tap and three other subscriptions match the topic, the tap first
  in the list after the shuffle, and the message carries the consumer limit 2. The tap
  receives the message and counts as a delivery, so one subscription that is not a tap
  receives it, not two. Both copies of the loop behave so.
\<close>

theorem taps_use_up_consumer_limit:
  "map client (RMatchSubs fanout_tree ''t'') = [1, 2, 3, 4] \<and>
   map tap (RMatchSubs fanout_tree ''t'') = [True, False, False, False] \<and>
   map client (Publish draw_same fanout_tree ''t'' 2) = [1, 2] \<and>
   map client (Publish_queue draw_same fanout_tree ''t'' 2) = [1, 2]"
  by code_simp

section \<open>Properties of the resolution cache\<close>

text \<open>
  C10 on the code. The DOT that \<open>A\<close> grants to \<open>B\<close> is cached, \<open>B\<close> is flushed, and the
  DOT is cached again. The second \<open>cacheDOT\<close> finds the hash still listed under the giver
  and appends it nowhere, so the list of the receiver, which the flush deleted, stays
  empty: the cached DOT is not listed under its receiver. A second flush of \<open>B\<close> then
  leaves the DOT in the cache, and the lookup of its hash hits.
\<close>

theorem flushed_receiver_loses_index:
  "fst (resolveDOTFromCache (hash dotAB)
     (FlushEntity vkB (cacheDOT dotAB StateValid (FlushEntity vkB (cacheDOT dotAB StateValid newResolutionData))))) = True \<and>
   receiverVK dotAB = vkB \<and>
   dotHashCache (cacheDOT dotAB StateValid (FlushEntity vkB (cacheDOT dotAB StateValid newResolutionData)))
     (hash dotAB) = Some (dotAB, StateValid) \<and>
   hash dotAB \<notin> set (entries (dotToInvCache
     (cacheDOT dotAB StateValid (FlushEntity vkB (cacheDOT dotAB StateValid newResolutionData)))) vkB)"
proof -
  let ?rd = "cacheDOT dotAB StateValid (FlushEntity vkB (cacheDOT dotAB StateValid newResolutionData))"
  have ne: "vkA \<noteq> vkB" by (simp add: vkA_def vkB_def)
  have h: "dotHashCache ?rd (hash dotAB) = Some (dotAB, StateValid)"
    by (simp add: FlushEntity_def cacheDOT_def newResolutionData_def entries_def flushDOT_def Let_def)
  have t: "entries (dotToInvCache ?rd) vkB = []"
    using ne by (simp add: FlushEntity_def cacheDOT_def newResolutionData_def entries_def flushDOT_def Let_def dotAB_def grant_def)
  have f: "entries (dotFromInvCache ?rd) vkB = []"
    using ne by (simp add: FlushEntity_def cacheDOT_def newResolutionData_def entries_def flushDOT_def Let_def dotAB_def grant_def)
  have r: "receiverVK dotAB = vkB" by (simp add: dotAB_def grant_def)
  have 1: "fst (resolveDOTFromCache (hash dotAB) (FlushEntity vkB ?rd)) = True"
    using h t f by (simp add: resolveDOTFromCache_def FlushEntity_def Let_def flushDOT_def)
  show ?thesis using 1 h t r by simp
qed

section \<open>Properties of the chain builder\<close>

lemma dedup_loop_keeps_all:
  "dedup_loop sha Map.empty ss rv = rv @ map (ToChain sha) ss"
  by (induction ss arbitrary: rv) (simp_all add: Let_def)

text \<open>
  C8 on the code. The registry lists the one DOT that the namespace key grants to the
  target twice. Both entries pass as options, both give a valid scenario, and \<open>Build\<close>
  returns the same chain twice, whatever the digest: the map \<open>seen\<close> stays empty, and
  the last loop keeps the chain of every valid scenario.
\<close>

theorem Build_returns_duplicates:
  "Build 1 (twice_listed sha) builder_to_B =
     Some (Inr [ToChain sha (NewScenario dotMB), ToChain sha (NewScenario dotMB)]) \<and>
   chainhash (ToChain sha (NewScenario dotMB)) = sha (replicate 32 9)"
proof -
  have sp: "splitN2 ''m/a/b'' = [''m'', ''a/b'']" by simp
  have v: "valid (AnalyzeSuffix ''a/b'')" by code_simp
  have rb: "RestrictBy ''a/b'' ''a/*'' = (''a/b'', True)" by code_simp
  have sub: "IsSubsetOf perm_C perm_C" by (simp add: IsSubsetOf_def)
  have u: "dotUseful builder_to_B dotMB"
    using sub by (simp add: dotUseful_def builder_to_B_def dotMB_def rb)
  have o: "getOptions (twice_listed sha) builder_to_B vkM = [dotMB, dotMB]"
    using u by (simp add: getOptions_def twice_listed_def)
  have t: "terminal builder_to_B (NewScenario dotMB)"
    by (simp add: terminal_def GetTerminalVK_def NewScenario_def builder_to_B_def dotMB_def)
  have i: "initial_loop builder_to_B [dotMB, dotMB] ([], []) = ([NewScenario dotMB, NewScenario dotMB], [])"
    using t by (simp add: Let_def)
  have h: "hash dotMB = replicate 32 9" by (simp add: dotMB_def)
  have c: "chainhash (ToChain sha (NewScenario dotMB)) = sha (replicate 32 9)"
    by (simp add: ToChain_def NewScenario_def h)
  have e: "LookupChain (twice_listed sha) = None" "ResolveKey (twice_listed sha) ''m'' = Some vkM"
    "sha256 (twice_listed sha) = sha" "uri builder_to_B = ''m/a/b''"
    by (simp_all add: twice_listed_def builder_to_B_def)
  have w: "\<And>n. walk n (twice_listed sha) builder_to_B ([NewScenario dotMB, NewScenario dotMB], []) =
      Some [NewScenario dotMB, NewScenario dotMB]"
    by simp
  show ?thesis
    by (simp add: Build_def e sp v o i w dedup_loop_keeps_all c Let_def del: initial_loop.simps walk.simps splitN2.simps)
qed

end
